theory Spec2Isabelle
  imports Complex_Main "HOL-Library.AList" "HOL-Library.Char_ord" "HOL-Library.List_Lexorder"
    "HOL-Library.Log_Nat" "HOL-Library.Sublist"
begin

section \<open>Python floats\<close>

text \<open>
  A Python float is an IEEE 754 double: a finite value, which is a rational number, one of
  the two zeros, an infinity or NaN. \<open>Fin 0\<close> is the positive zero.
\<close>

datatype pyfloat = Fin rat | NegZero | PosInf | NegInf | NaN

fun fin_val :: "pyfloat \<Rightarrow> rat option" where
  "fin_val (Fin r) = Some r"
| "fin_val NegZero = Some 0"
| "fin_val f = None"

fun is_zero :: "pyfloat \<Rightarrow> bool" where
  "is_zero (Fin r) = (r = 0)"
| "is_zero NegZero = True"
| "is_zero f = False"

fun sign_bit :: "pyfloat \<Rightarrow> bool" where
  "sign_bit (Fin r) = (r < 0)"
| "sign_bit NegZero = True"
| "sign_bit NegInf = True"
| "sign_bit f = False"

definition zero_of :: "bool \<Rightarrow> pyfloat" where
  "zero_of neg = (if neg then NegZero else Fin 0)"

definition inf_of :: "bool \<Rightarrow> pyfloat" where
  "inf_of neg = (if neg then NegInf else PosInf)"

text \<open>
  Rounding an exact value to the nearest double, a tie to the even significand: 53 bits of
  significand, the quantum \<open>2^(e - 52)\<close> for a value of exponent \<open>e\<close> and \<open>2^(-1074)\<close> for
  the subnormal ones. A result of magnitude \<open>2^1024\<close> or more does not fit.
\<close>

definition pow2 :: "int \<Rightarrow> rat" where
  "pow2 k = 2 powi k"

text \<open>The exponent \<open>e\<close> of a value that is not zero: \<open>2^e \<le> \<bar>x\<bar> < 2^(e + 1)\<close>.\<close>

definition exponent :: "rat \<Rightarrow> int" where
  "exponent x =
     (case quotient_of \<bar>x\<bar> of
        (p, q) \<Rightarrow>
          let e0 = bitlen p - bitlen q
          in if pow2 e0 \<le> \<bar>x\<bar> then e0 else e0 - 1)"

definition round_half_even :: "rat \<Rightarrow> int" where
  "round_half_even x =
     (let f = \<lfloor>x\<rfloor>; d = x - of_int f
      in if d < 1 / 2 then f
         else if 1 / 2 < d then f + 1
         else if even f then f else f + 1)"

definition round_to_double :: "rat \<Rightarrow> rat" where
  "round_to_double x =
     (if x = 0 then 0
      else let ulp = pow2 (max (exponent x) (- 1022) - 52)
           in of_int (round_half_even (x / ulp)) * ulp)"

definition overflows :: "rat \<Rightarrow> bool" where
  "overflows r = (pow2 1024 \<le> \<bar>r\<bar>)"

text \<open>
  The result of a float operation whose exact value is \<open>x\<close>: the nearest double, an
  infinity when that does not fit, and the zero of sign \<open>neg\<close> when it is zero.
\<close>

definition to_double :: "bool \<Rightarrow> rat \<Rightarrow> pyfloat" where
  "to_double neg x =
     (let r = round_to_double x
      in if overflows r then inf_of (x < 0)
         else if r = 0 then zero_of neg
         else Fin r)"

text \<open>\<^verbatim>\<open>a - b\<close>, \<^verbatim>\<open>a / b\<close> (for \<open>b\<close> that is not zero) and \<^verbatim>\<open>a * b\<close> on two floats.\<close>

definition fsub :: "pyfloat \<Rightarrow> pyfloat \<Rightarrow> pyfloat" where
  "fsub a b =
     (if a = NaN \<or> b = NaN then NaN
      else case (fin_val a, fin_val b) of
             (Some x, Some y) \<Rightarrow>
               if x - y = 0 then zero_of (a = NegZero \<and> b = Fin 0)
               else to_double (x - y < 0) (x - y)
           | (None, Some y) \<Rightarrow> a
           | (Some x, None) \<Rightarrow> inf_of (b = PosInf)
           | (None, None) \<Rightarrow> if a = b then NaN else a)"

definition fdiv :: "pyfloat \<Rightarrow> pyfloat \<Rightarrow> pyfloat" where
  "fdiv a b =
     (if a = NaN \<or> b = NaN then NaN
      else case (fin_val a, fin_val b) of
             (Some x, Some y) \<Rightarrow>
               if y = 0 then (if x = 0 then NaN else inf_of (sign_bit a \<noteq> sign_bit b))
               else to_double (sign_bit a \<noteq> sign_bit b) (x / y)
           | (None, Some y) \<Rightarrow> inf_of (sign_bit a \<noteq> sign_bit b)
           | (Some x, None) \<Rightarrow> zero_of (sign_bit a \<noteq> sign_bit b)
           | (None, None) \<Rightarrow> NaN)"

definition fmul :: "pyfloat \<Rightarrow> pyfloat \<Rightarrow> pyfloat" where
  "fmul a b =
     (if a = NaN \<or> b = NaN then NaN
      else case (fin_val a, fin_val b) of
             (Some x, Some y) \<Rightarrow> to_double (sign_bit a \<noteq> sign_bit b) (x * y)
           | (None, Some y) \<Rightarrow> if y = 0 then NaN else inf_of (sign_bit a \<noteq> sign_bit b)
           | (Some x, None) \<Rightarrow> if x = 0 then NaN else inf_of (sign_bit a \<noteq> sign_bit b)
           | (None, None) \<Rightarrow> inf_of (sign_bit a \<noteq> sign_bit b))"

text \<open>
  \<^verbatim>\<open>round(x, 1)\<close> of a float: the exact value of \<open>x\<close> is rounded to a tenth, a tie to the
  even tenth, and the result is the double nearest to that decimal. Infinities and NaN
  round to themselves.
\<close>

definition round_tenth :: "rat \<Rightarrow> rat" where
  "round_tenth x = of_int (round_half_even (x * 10)) / 10"

definition py_round1 :: "pyfloat \<Rightarrow> pyfloat" where
  "py_round1 a = (case a of Fin r \<Rightarrow> to_double (r < 0) (round_tenth r) | _ \<Rightarrow> a)"

section \<open>JSON values and the Python operations the handlers apply to them\<close>

text \<open>
  Every value the handlers of \<^verbatim>\<open>app.py\<close> touch comes out of \<^verbatim>\<open>response.json()\<close> or
  \<^verbatim>\<open>request.json\<close>, so it is a JSON value. Integers are Python's unbounded \<^verbatim>\<open>int\<close>. A dict
  is an association list read with \<^const>\<open>map_of\<close>; Python dicts have unique keys, which is
  \<open>distinct (map fst d)\<close> here.
\<close>

datatype json =
    JNull
  | JBool bool
  | JInt int
  | JFloat pyfloat
  | JStr string
  | JList "json list"
  | JDict "(string \<times> json) list"

type_synonym dict = "(string \<times> json) list"

text \<open>An exception that is raised; \<open>Inl e\<close> as a result is the exception leaving the function.\<close>

datatype error =
    KeyError
  | TypeError
  | ValueError
  | AttributeError
  | IndexError
  | ZeroDivisionError
  | OverflowError
  | RequestError
  | JSONDecodeError

text \<open>An exception aborts what follows it.\<close>

definition ebind :: "error + 'a \<Rightarrow> ('a \<Rightarrow> error + 'b) \<Rightarrow> error + 'b" where
  "ebind x f = (case x of Inl e \<Rightarrow> Inl e | Inr v \<Rightarrow> f v)"

text \<open>
  What Python itself decides and the program only calls: the grammar of \<^verbatim>\<open>float(s)\<close> on a
  string (\<open>None\<close> is ValueError), \<^verbatim>\<open>str(v)\<close> of a value that is not a string, the format
  \<^verbatim>\<open>.1f\<close> of a float and the text of an exception. The handlers take them as a parameter.
\<close>

record pyrt =
  float_of_str :: "string \<Rightarrow> pyfloat option"
  str_of :: "json \<Rightarrow> string"
  fmt_1f :: "pyfloat \<Rightarrow> string"
  exc_str :: "error \<Rightarrow> string"

text \<open>
  The value of a number that is finite: \<^verbatim>\<open>bool\<close>, \<^verbatim>\<open>int\<close> and a float that is neither an
  infinity nor NaN; \<^verbatim>\<open>True\<close> is 1.
\<close>

fun num_val :: "json \<Rightarrow> rat option" where
  "num_val (JBool b) = Some (if b then 1 else 0)"
| "num_val (JInt i) = Some (of_int i)"
| "num_val (JFloat f) = fin_val f"
| "num_val v = None"

fun is_number :: "json \<Rightarrow> bool" where
  "is_number (JBool b) = True"
| "is_number (JInt i) = True"
| "is_number (JFloat f) = True"
| "is_number v = False"

text \<open>\<^verbatim>\<open>bool(v)\<close>, the test of \<^verbatim>\<open>if v\<close>, \<^verbatim>\<open>v and ...\<close> and \<^verbatim>\<open>v or ...\<close>.\<close>

fun truthy :: "json \<Rightarrow> bool" where
  "truthy JNull = False"
| "truthy (JBool b) = b"
| "truthy (JInt i) = (i \<noteq> 0)"
| "truthy (JFloat f) = (\<not> is_zero f)"
| "truthy (JStr s) = (s \<noteq> [])"
| "truthy (JList xs) = (xs \<noteq> [])"
| "truthy (JDict d) = (d \<noteq> [])"

text \<open>
  The conversion of an \<^verbatim>\<open>int\<close> to a float rounds to the nearest double and raises
  OverflowError when that does not fit.
\<close>

definition int_to_float :: "int \<Rightarrow> error + pyfloat" where
  "int_to_float i =
     (let r = round_to_double (of_int i)
      in if overflows r then Inl OverflowError else Inr (Fin r))"

text \<open>The float of a number, as an arithmetic operator with a float operand takes it.\<close>

fun num_float :: "json \<Rightarrow> error + pyfloat" where
  "num_float (JBool b) = Inr (Fin (if b then 1 else 0))"
| "num_float (JInt i) = int_to_float i"
| "num_float (JFloat f) = Inr f"
| "num_float v = Inl TypeError"

text \<open>\<^verbatim>\<open>float(v)\<close>.\<close>

fun py_float :: "pyrt \<Rightarrow> json \<Rightarrow> error + pyfloat" where
  "py_float rt (JStr s) = (case float_of_str rt s of None \<Rightarrow> Inl ValueError | Some f \<Rightarrow> Inr f)"
| "py_float rt v = num_float v"

text \<open>
  Numbers compare by their exact values across \<^verbatim>\<open>bool\<close>, \<^verbatim>\<open>int\<close> and \<^verbatim>\<open>float\<close>, the
  infinities below and above every finite value; NaN has no place in the order.
\<close>

datatype xnum = XNegInf | XFin rat | XPosInf

fun float_x :: "pyfloat \<Rightarrow> xnum option" where
  "float_x (Fin r) = Some (XFin r)"
| "float_x NegZero = Some (XFin 0)"
| "float_x PosInf = Some XPosInf"
| "float_x NegInf = Some XNegInf"
| "float_x NaN = None"

fun num_x :: "json \<Rightarrow> xnum option" where
  "num_x (JBool b) = Some (XFin (if b then 1 else 0))"
| "num_x (JInt i) = Some (XFin (of_int i))"
| "num_x (JFloat f) = float_x f"
| "num_x v = None"

fun less_x :: "xnum \<Rightarrow> xnum \<Rightarrow> bool" where
  "less_x (XFin x) (XFin y) = (x < y)"
| "less_x XNegInf XNegInf = False"
| "less_x XNegInf y = True"
| "less_x x XPosInf = (x \<noteq> XPosInf)"
| "less_x x y = False"

text \<open>\<^verbatim>\<open>a == b\<close>: numbers by value, NaN equal to nothing, containers by content.\<close>

fun py_eq :: "json \<Rightarrow> json \<Rightarrow> bool" where
  "py_eq JNull JNull = True"
| "py_eq (JStr s) (JStr t) = (s = t)"
| "py_eq (JList xs) (JList ys) = list_all2 py_eq xs ys"
| "py_eq (JDict xs) (JDict ys) =
     (length xs = length ys \<and>
      list_all (\<lambda>(k, v). case map_of ys k of None \<Rightarrow> False | Some w \<Rightarrow> py_eq v w) xs)"
| "py_eq a b = (case (num_x a, num_x b) of (Some x, Some y) \<Rightarrow> x = y | _ \<Rightarrow> False)"

text \<open>
  The ordering operators. Strings and lists compare lexicographically; a comparison with
  NaN is false; every other pair of operands raises TypeError.
\<close>

datatype cmpop = Lt | Le | Gt | Ge

fun cmp_rat :: "cmpop \<Rightarrow> rat \<Rightarrow> rat \<Rightarrow> bool" where
  "cmp_rat Lt x y = (x < y)"
| "cmp_rat Le x y = (x \<le> y)"
| "cmp_rat Gt x y = (y < x)"
| "cmp_rat Ge x y = (y \<le> x)"

fun cmp_x :: "cmpop \<Rightarrow> xnum \<Rightarrow> xnum \<Rightarrow> bool" where
  "cmp_x Lt x y = less_x x y"
| "cmp_x Le x y = (less_x x y \<or> x = y)"
| "cmp_x Gt x y = less_x y x"
| "cmp_x Ge x y = (less_x y x \<or> x = y)"

fun cmp_str :: "cmpop \<Rightarrow> string \<Rightarrow> string \<Rightarrow> bool" where
  "cmp_str Lt x y = (x < y)"
| "cmp_str Le x y = (x \<le> y)"
| "cmp_str Gt x y = (y < x)"
| "cmp_str Ge x y = (y \<le> x)"

fun py_compare :: "cmpop \<Rightarrow> json \<Rightarrow> json \<Rightarrow> error + bool"
  and cmp_lists :: "cmpop \<Rightarrow> json list \<Rightarrow> json list \<Rightarrow> error + bool" where
  "py_compare c (JStr s) (JStr t) = Inr (cmp_str c s t)"
| "py_compare c (JList xs) (JList ys) = cmp_lists c xs ys"
| "py_compare c a b =
     (if is_number a \<and> is_number b
      then Inr (case (num_x a, num_x b) of (Some x, Some y) \<Rightarrow> cmp_x c x y | _ \<Rightarrow> False)
      else Inl TypeError)"
| "cmp_lists c [] [] = Inr (c = Le \<or> c = Ge)"
| "cmp_lists c [] (y # ys) = Inr (c = Lt \<or> c = Le)"
| "cmp_lists c (x # xs) [] = Inr (c = Gt \<or> c = Ge)"
| "cmp_lists c (x # xs) (y # ys) = (if py_eq x y then cmp_lists c xs ys else py_compare c x y)"

text \<open>
  A dict key is hashed and compared with \<^verbatim>\<open>==\<close>: \<^verbatim>\<open>1\<close>, \<^verbatim>\<open>1.0\<close> and \<^verbatim>\<open>True\<close> are one key,
  and so are the two zeros. Lists and dicts are unhashable: using one as a key raises
  TypeError. A NaN is hashable and equal to no key: what is stored under it is never found
  again by a lookup.
\<close>

datatype key = KNone | KNum rat | KPosInf | KNegInf | KNaN | KStr string

fun float_key :: "pyfloat \<Rightarrow> key" where
  "float_key (Fin r) = KNum r"
| "float_key NegZero = KNum 0"
| "float_key PosInf = KPosInf"
| "float_key NegInf = KNegInf"
| "float_key NaN = KNaN"

fun py_key :: "json \<Rightarrow> error + key" where
  "py_key JNull = Inr KNone"
| "py_key (JBool b) = Inr (KNum (if b then 1 else 0))"
| "py_key (JInt i) = Inr (KNum (of_int i))"
| "py_key (JFloat f) = Inr (float_key f)"
| "py_key (JStr s) = Inr (KStr s)"
| "py_key (JList xs) = Inl TypeError"
| "py_key (JDict d) = Inl TypeError"

text \<open>\<^verbatim>\<open>k in d\<close>, \<^verbatim>\<open>d.get(k)\<close> and \<^verbatim>\<open>d[k]\<close> on a dict.\<close>

definition has_key :: "dict \<Rightarrow> string \<Rightarrow> bool" where
  "has_key d k = (map_of d k \<noteq> None)"

definition dict_get :: "dict \<Rightarrow> string \<Rightarrow> json" where
  "dict_get d k = (case map_of d k of None \<Rightarrow> JNull | Some v \<Rightarrow> v)"

definition dict_item :: "dict \<Rightarrow> string \<Rightarrow> error + json" where
  "dict_item d k = (case map_of d k of None \<Rightarrow> Inl KeyError | Some v \<Rightarrow> Inr v)"

text \<open>
  \<^verbatim>\<open>m[k] = v\<close> and \<^verbatim>\<open>m.get(k)\<close> on a dict built by a handler, whose keys are hashed values
  and whose values may be \<^verbatim>\<open>None\<close>.
\<close>

definition map_put :: "(key \<rightharpoonup> json) \<Rightarrow> key \<Rightarrow> json \<Rightarrow> (key \<rightharpoonup> json)" where
  "map_put m k v = (if k = KNaN then m else m(k \<mapsto> v))"

definition map_get :: "(key \<rightharpoonup> json) \<Rightarrow> key \<Rightarrow> json" where
  "map_get m k = (if k = KNaN then JNull else case m k of None \<Rightarrow> JNull | Some v \<Rightarrow> v)"

section \<open>The upstream service and what a view function returns\<close>

text \<open>
  \<^verbatim>\<open>requests.get(url).json()\<close>: the request fails, or a reply arrives with a status code and
  a body that is JSON or not. The code never reads the status code.
\<close>

datatype upstream = ConnectionFailed | Replied nat "json option"

fun fetch_json :: "upstream \<Rightarrow> error + json" where
  "fetch_json ConnectionFailed = Inl RequestError"
| "fetch_json (Replied code None) = Inl JSONDecodeError"
| "fetch_json (Replied code (Some body)) = Inr body"

text \<open>
  \<^verbatim>\<open>return jsonify(x)\<close> returns a Response object whose status is 200;
  \<^verbatim>\<open>return jsonify(x), code\<close> returns a tuple, which has no \<^verbatim>\<open>status_code\<close>.
\<close>

datatype view_result = Response json | ResponseWithStatus json nat



section \<open>get_cauldron_levels: the live level normaliser and the status merger\<close>

definition wrappers :: "string list" where
  "wrappers = [''data'', ''items'', ''results'', ''value'']"

definition single_object_keys :: "string list" where
  "single_object_keys =
     [''cauldronId'', ''id'', ''cauldron_id'', ''currentVolume'', ''current_volume'']"

definition id_keys :: "string list" where
  "id_keys = [''cauldronId'', ''cauldron_id'', ''id'']"

definition level_keys :: "string list" where
  "level_keys =
     [''currentVolume'', ''current_volume'', ''volume'', ''level'', ''value'', ''current'']"

fun is_list :: "json \<Rightarrow> bool" where
  "is_list (JList xs) = True"
| "is_list _ = False"

text \<open>
  Lines 97 to 114. \<open>None\<close> is the return of the error
  \<^verbatim>\<open>{"error": "Unexpected /api/Data format"}\<close> with status 500.
\<close>

definition unwrap_payload :: "json \<Rightarrow> json option" where
  "unwrap_payload live_levels_data =
     (case live_levels_data of
        JDict d \<Rightarrow>
          (case find (\<lambda>wrapper. has_key d wrapper \<and> is_list (dict_get d wrapper)) wrappers of
             Some wrapper \<Rightarrow> Some (dict_get d wrapper)
           | None \<Rightarrow>
               if list_ex (\<lambda>k. has_key d k) single_object_keys
               then Some (JList [live_levels_data])
               else None)
      | _ \<Rightarrow> Some live_levels_data)"

text \<open>
  \<^verbatim>\<open>isinstance(rec, dict) and isinstance(rec.get('cauldron_levels'), dict)\<close>, giving the
  inner dict. The test on the first element (line 123) accepts the same values.
\<close>

fun cauldron_levels_of :: "json \<Rightarrow> dict option" where
  "cauldron_levels_of (JDict d) =
     (case map_of d ''cauldron_levels'' of Some (JDict lv) \<Rightarrow> Some lv | _ \<Rightarrow> None)"
| "cauldron_levels_of _ = None"

text \<open>The loop of lines 126 to 129 over the reversed list: the first record that has a map.\<close>

fun first_levels :: "json list \<Rightarrow> dict option" where
  "first_levels [] = None"
| "first_levels (r # rs) =
     (case cauldron_levels_of r of Some lv \<Rightarrow> Some lv | None \<Rightarrow> first_levels rs)"

definition latest_levels :: "json list \<Rightarrow> dict" where
  "latest_levels live_levels_list =
     (case first_levels (rev live_levels_list) of None \<Rightarrow> [] | Some lv \<Rightarrow> lv)"

text \<open>Lines 133 to 137 (and 172 to 176): \<^verbatim>\<open>float(v)\<close>, and \<open>v\<close> itself when that raises.\<close>

definition coerce_level :: "pyrt \<Rightarrow> json \<Rightarrow> json" where
  "coerce_level rt v = (case py_float rt v of Inr r \<Rightarrow> JFloat r | Inl e \<Rightarrow> v)"

definition coerce_items :: "pyrt \<Rightarrow> dict \<Rightarrow> (key \<rightharpoonup> json) \<Rightarrow> (key \<rightharpoonup> json)" where
  "coerce_items rt items m = fold (\<lambda>(k, v) m. m(KStr k \<mapsto> coerce_level rt v)) items m"

text \<open>
  The loops \<^verbatim>\<open>for k in (...): if k in item: x = item[k]; break\<close> of lines 145 and 157,
  with \<open>x\<close> starting as \<^verbatim>\<open>None\<close>.
\<close>

fun first_present :: "string list \<Rightarrow> dict \<Rightarrow> json" where
  "first_present [] item = JNull"
| "first_present (k # ks) item =
     (case map_of item k of Some v \<Rightarrow> v | None \<Rightarrow> first_present ks item)"

text \<open>Lines 144 to 151.\<close>

definition item_key :: "dict \<Rightarrow> json" where
  "item_key item =
     (let cauldron_key = first_present id_keys item
      in if cauldron_key = JNull
         then (case dict_get item ''cauldron'' of
                 JDict c \<Rightarrow> dict_get c ''id''
               | _ \<Rightarrow> JNull)
         else cauldron_key)"

text \<open>Lines 156 to 166.\<close>

definition item_level :: "pyrt \<Rightarrow> dict \<Rightarrow> json" where
  "item_level rt item =
     (let level = first_present level_keys item
      in if level = JNull then JNull
         else (case py_float rt level of Inr r \<Rightarrow> JFloat r | Inl e \<Rightarrow> JNull))"

text \<open>One round of the loop of line 140; storing under an unhashable key raises.\<close>

fun flat_step :: "pyrt \<Rightarrow> json \<Rightarrow> (key \<rightharpoonup> json) \<Rightarrow> error + (key \<rightharpoonup> json)" where
  "flat_step rt (JDict item) m =
     (let cauldron_key = item_key item
      in if cauldron_key = JNull then Inr m
         else (case py_key cauldron_key of
                 Inl e \<Rightarrow> Inl e
               | Inr k \<Rightarrow> Inr (map_put m k (item_level rt item))))"
| "flat_step rt item m = Inr m"

fun flat_loop :: "pyrt \<Rightarrow> json list \<Rightarrow> (key \<rightharpoonup> json) \<Rightarrow> error + (key \<rightharpoonup> json)" where
  "flat_loop rt [] m = Inr m"
| "flat_loop rt (item # items) m =
     (case flat_step rt item m of Inl e \<Rightarrow> Inl e | Inr m' \<Rightarrow> flat_loop rt items m')"

text \<open>Lines 119 to 176: the map of live levels built from the unwrapped payload.\<close>

definition build_levels_map :: "pyrt \<Rightarrow> json \<Rightarrow> error + (key \<rightharpoonup> json)" where
  "build_levels_map rt live_levels_list =
     (case live_levels_list of
        JList [] \<Rightarrow> Inr Map.empty
      | JList (first # rest) \<Rightarrow>
          if cauldron_levels_of first \<noteq> None
          then Inr (coerce_items rt (latest_levels (first # rest)) Map.empty)
          else flat_loop rt (first # rest) Map.empty
      | JDict d \<Rightarrow>
          (case cauldron_levels_of (JDict d) of
             Some lv \<Rightarrow> Inr (coerce_items rt lv Map.empty)
           | None \<Rightarrow> Inr Map.empty)
      | _ \<Rightarrow> Inr Map.empty)"

text \<open>
  The normaliser, lines 97 to 176: \<open>Inr None\<close> is the format error of line 114,
  \<open>Inl e\<close> an exception.
\<close>

definition normalize_levels :: "pyrt \<Rightarrow> json \<Rightarrow> error + (key \<rightharpoonup> json) option" where
  "normalize_levels rt live_levels_data =
     (case unwrap_payload live_levels_data of
        None \<Rightarrow> Inr None
      | Some live_levels_list \<Rightarrow>
          (case build_levels_map rt live_levels_list of
             Inl e \<Rightarrow> Inl e
           | Inr m \<Rightarrow> Inr (Some m)))"

text \<open>The body of the loop of lines 178 to 192 for one catalog entry.\<close>

definition merge_one :: "(key \<rightharpoonup> json) \<Rightarrow> dict \<Rightarrow> error + dict" where
  "merge_one live_levels_map static_cauldron =
     (case dict_item static_cauldron ''id'' of
        Inl e \<Rightarrow> Inl e
      | Inr cauldron_id \<Rightarrow>
          (case py_key cauldron_id of
             Inl e \<Rightarrow> Inl e
           | Inr k \<Rightarrow>
               let live_level = map_get live_levels_map k;
                   merged_data =
                     AList.update ''current_level''
                       (if live_level \<noteq> JNull then live_level else JInt 0) static_cauldron
               in if truthy live_level
                  then (case dict_item merged_data ''max_volume'' of
                          Inl e \<Rightarrow> Inl e
                        | Inr max_volume \<Rightarrow>
                            (case py_compare Ge live_level max_volume of
                               Inl e \<Rightarrow> Inl e
                             | Inr b \<Rightarrow> Inr (AList.update ''anomaly'' (JBool b) merged_data)))
                  else Inr (AList.update ''anomaly'' (JBool False) merged_data)))"

fun merge_all :: "(key \<rightharpoonup> json) \<Rightarrow> dict list \<Rightarrow> error + dict list" where
  "merge_all live_levels_map [] = Inr []"
| "merge_all live_levels_map (static_cauldron # rest) =
     (case merge_one live_levels_map static_cauldron of
        Inl e \<Rightarrow> Inl e
      | Inr merged_data \<Rightarrow>
          (case merge_all live_levels_map rest of
             Inl e \<Rightarrow> Inl e
           | Inr merged \<Rightarrow> Inr (merged_data # merged)))"

text \<open>
  The view function. The catalog \<^verbatim>\<open>factory_static_data['cauldrons']\<close> is a list of dicts:
  the loader assigns \<^verbatim>\<open>c['fill_rate_per_min']\<close> to each entry, which only a dict accepts,
  and the process exits when the loader fails.
\<close>

definition get_cauldron_levels :: "pyrt \<Rightarrow> dict list \<Rightarrow> upstream \<Rightarrow> error + view_result" where
  "get_cauldron_levels rt cauldrons up =
     (case fetch_json up of
        Inl e \<Rightarrow> Inr (ResponseWithStatus (JDict [(''error'', JStr (exc_str rt e))]) 500)
      | Inr live_levels_data \<Rightarrow>
          (case normalize_levels rt live_levels_data of
             Inl e \<Rightarrow> Inl e
           | Inr None \<Rightarrow>
               Inr (ResponseWithStatus
                      (JDict [(''error'', JStr ''Unexpected /api/Data format'')]) 500)
           | Inr (Some live_levels_map) \<Rightarrow>
               (case merge_all live_levels_map cauldrons of
                  Inl e \<Rightarrow> Inl e
                | Inr merged_cauldron_data \<Rightarrow>
                    Inr (Response (JList (map JDict merged_cauldron_data))))))"

section \<open>More Python operations\<close>

text \<open>\<^verbatim>\<open>v[k]\<close> and \<^verbatim>\<open>v.get(k)\<close> for a string \<open>k\<close>; only a dict has them.\<close>

fun py_item :: "json \<Rightarrow> string \<Rightarrow> error + json" where
  "py_item (JDict d) k = dict_item d k"
| "py_item v k = Inl TypeError"

fun py_get :: "json \<Rightarrow> string \<Rightarrow> error + json" where
  "py_get (JDict d) k = Inr (dict_get d k)"
| "py_get v k = Inl AttributeError"

text \<open>\<^verbatim>\<open>for x in v\<close>: a list gives its elements, a dict its keys, a string its characters.\<close>

fun py_iter :: "json \<Rightarrow> error + json list" where
  "py_iter (JList xs) = Inr xs"
| "py_iter (JDict d) = Inr (map (\<lambda>kv. JStr (fst kv)) d)"
| "py_iter (JStr s) = Inr (map (\<lambda>c. JStr [c]) s)"
| "py_iter v = Inl TypeError"

text \<open>\<^verbatim>\<open>a or b\<close>.\<close>

definition py_or :: "json \<Rightarrow> json \<Rightarrow> json" where
  "py_or a b = (if truthy a then a else b)"

text \<open>
  \<^verbatim>\<open>a - b\<close> is an \<^verbatim>\<open>int\<close> when both operands are \<^verbatim>\<open>int\<close> or \<^verbatim>\<open>bool\<close>. When a float takes
  part, the other operand is converted to a float first, which raises OverflowError for an
  \<^verbatim>\<open>int\<close> that does not fit.
\<close>

fun int_val :: "json \<Rightarrow> int option" where
  "int_val (JBool b) = Some (if b then 1 else 0)"
| "int_val (JInt i) = Some i"
| "int_val v = None"

definition py_sub :: "json \<Rightarrow> json \<Rightarrow> error + json" where
  "py_sub a b =
     (case (int_val a, int_val b) of
        (Some x, Some y) \<Rightarrow> Inr (JInt (x - y))
      | _ \<Rightarrow>
          if is_number a \<and> is_number b
          then ebind (num_float a) (\<lambda>fa. ebind (num_float b) (\<lambda>fb. Inr (JFloat (fsub fa fb))))
          else Inl TypeError)"

text \<open>
  \<^verbatim>\<open>a / b\<close> is always a float. Of two \<^verbatim>\<open>int\<close>s it is the double nearest to the exact
  quotient, OverflowError when that does not fit; the zero quotient has the sign of the
  operands. With a float operand the other one is converted first. A zero divisor raises
  ZeroDivisionError.
\<close>

definition py_truediv :: "json \<Rightarrow> json \<Rightarrow> error + pyfloat" where
  "py_truediv a b =
     (case (int_val a, int_val b) of
        (Some x, Some y) \<Rightarrow>
          if y = 0 then Inl ZeroDivisionError
          else (let r = round_to_double (of_int x / of_int y)
                in if overflows r then Inl OverflowError
                   else if r = 0 then Inr (zero_of ((x < 0) \<noteq> (y < 0)))
                   else Inr (Fin r))
      | _ \<Rightarrow>
          if is_number a \<and> is_number b
          then ebind (num_float a) (\<lambda>fa. ebind (num_float b) (\<lambda>fb.
                 if is_zero fb then Inl ZeroDivisionError else Inr (fdiv fa fb)))
          else Inl TypeError)"

text \<open>\<^verbatim>\<open>str(v)\<close>, as an f-string applies it: a string is itself.\<close>

definition py_str :: "pyrt \<Rightarrow> json \<Rightarrow> string" where
  "py_str rt v = (case v of JStr s \<Rightarrow> s | _ \<Rightarrow> str_of rt v)"

section \<open>forecast_fill_times\<close>

text \<open>The body of the loop of lines 284 to 298: the entry to append, if any.\<close>

definition forecast_one :: "json \<Rightarrow> error + json option" where
  "forecast_one cauldron =
     ebind (py_item cauldron ''fill_rate_per_min'') (\<lambda>fill_rate.
     ebind (py_item cauldron ''current_level'') (\<lambda>current_level.
     ebind (py_item cauldron ''max_volume'') (\<lambda>max_volume.
     ebind (py_compare Lt current_level max_volume) (\<lambda>below.
       if \<not> below then Inr None
       else
         ebind (py_sub max_volume current_level) (\<lambda>liters_to_full.
         ebind (py_compare Gt fill_rate (JInt 0)) (\<lambda>positive.
           if \<not> positive then Inr None
           else
             ebind (py_truediv liters_to_full fill_rate) (\<lambda>time_to_full_min.
             ebind (py_item cauldron ''id'') (\<lambda>cauldron_id.
             ebind (py_item cauldron ''name'') (\<lambda>name.
               Inr (Some (JDict [(''cauldron_id'', cauldron_id),
                                 (''name'', name),
                                 (''time_to_full_min'',
                                  JFloat (py_round1 time_to_full_min))])))))))))))"

fun forecast_loop :: "json list \<Rightarrow> error + json list" where
  "forecast_loop [] = Inr []"
| "forecast_loop (cauldron # rest) =
     ebind (forecast_one cauldron) (\<lambda>entry.
     ebind (forecast_loop rest) (\<lambda>forecasts.
       Inr (case entry of None \<Rightarrow> forecasts | Some f \<Rightarrow> f # forecasts)))"

text \<open>
  The view function. A result of \<^verbatim>\<open>get_cauldron_levels()\<close> that is a tuple has no
  \<^verbatim>\<open>status_code\<close>: the AttributeError is caught at line 280 like any exception of the
  call, and the reply is the error object with status 200.
\<close>

definition forecast_fill_times :: "pyrt \<Rightarrow> dict list \<Rightarrow> upstream \<Rightarrow> error + view_result" where
  "forecast_fill_times rt cauldrons up =
     (case get_cauldron_levels rt cauldrons up of
        Inl e \<Rightarrow> Inr (Response (JDict [(''error'', JStr (exc_str rt e))]))
      | Inr (ResponseWithStatus body code) \<Rightarrow>
          Inr (Response (JDict [(''error'', JStr (exc_str rt AttributeError))]))
      | Inr (Response live_levels_data) \<Rightarrow>
          ebind (py_iter live_levels_data) (\<lambda>cs.
          ebind (forecast_loop cs) (\<lambda>forecasts.
            Inr (Response (JList forecasts)))))"

section \<open>cauldron_status\<close>

text \<open>Lines 333 to 338; every exception of the division is caught.\<close>

definition percent_full :: "pyrt \<Rightarrow> dict \<Rightarrow> pyfloat" where
  "percent_full rt c =
     (let max_vol = py_or (dict_get c ''max_volume'') (JInt 1);
          current = py_or (dict_get c ''current_level'') (JInt 0)
      in case py_float rt max_vol of
           Inl e \<Rightarrow> Fin 0
         | Inr m \<Rightarrow>
             (case py_truediv current (JFloat m) of
                Inl e \<Rightarrow> Fin 0
              | Inr q \<Rightarrow> py_round1 (fmul q (Fin 100))))"

text \<open>Line 329: the dict comprehension over \<^verbatim>\<open>forecasts or []\<close>.\<close>

fun forecast_map_loop :: "json list \<Rightarrow> (key \<rightharpoonup> json) \<Rightarrow> error + (key \<rightharpoonup> json)" where
  "forecast_map_loop [] m = Inr m"
| "forecast_map_loop (f # fs) m =
     ebind (py_get f ''cauldron_id'') (\<lambda>cauldron_id.
     ebind (py_key cauldron_id) (\<lambda>k.
       forecast_map_loop fs (map_put m k f)))"

definition forecast_map :: "json \<Rightarrow> error + (key \<rightharpoonup> json)" where
  "forecast_map forecasts =
     ebind (py_iter (py_or forecasts (JList []))) (\<lambda>fs. forecast_map_loop fs Map.empty)"

text \<open>The body of the loop of lines 332 to 346.\<close>

fun status_one :: "pyrt \<Rightarrow> (key \<rightharpoonup> json) \<Rightarrow> json \<Rightarrow> error + json" where
  "status_one rt fm (JDict c) =
     (let percent = percent_full rt c
      in ebind (py_key (dict_get c ''id'')) (\<lambda>k.
           let f = map_get fm k
           in ebind (if truthy f then py_get f ''time_to_full_min'' else Inr JNull)
                (\<lambda>time_to_full_min.
                  Inr (JDict (AList.update ''time_to_full_min'' time_to_full_min
                                (AList.update ''percent_full'' (JFloat percent) c))))))"
| "status_one rt fm c = Inl AttributeError"



section \<open>Looking an asset up in the catalog\<close>

text \<open>
  \<^verbatim>\<open>next((c for c in cauldrons if c['id'] == cauldron_id), None)\<close>: the entries are read in
  order until the first match, and an entry without \<^verbatim>\<open>id\<close> on the way raises.
\<close>

fun find_cauldron :: "json \<Rightarrow> dict list \<Rightarrow> error + dict option" where
  "find_cauldron cauldron_id [] = Inr None"
| "find_cauldron cauldron_id (c # cs) =
     ebind (dict_item c ''id'') (\<lambda>i.
       if py_eq i cauldron_id then Inr (Some c) else find_cauldron cauldron_id cs)"

section \<open>check_discrepancies\<close>






section \<open>dispatch_courier\<close>

text \<open>
  The state of the process: the catalog loaded at startup, which no handler assigns to, and
  what has been printed.
\<close>

record factory_static_data =
  cauldrons :: "dict list"
  network :: json
  market :: json
  couriers :: json

record process_state =
  static :: factory_static_data
  stdout :: "string list"

definition invalid_cauldron :: view_result where
  "invalid_cauldron =
     ResponseWithStatus
       (JDict [(''status'', JStr ''error''), (''message'', JStr ''Invalid cauldron ID.'')]) 400"

definition dispatch_courier ::
  "pyrt \<Rightarrow> process_state \<Rightarrow> json \<Rightarrow> error + (view_result \<times> process_state)" where
  "dispatch_courier rt st data =
     ebind (py_get data ''cauldron_id'') (\<lambda>cauldron_id.
     ebind (find_cauldron cauldron_id (cauldrons (static st))) (\<lambda>cauldron_data.
       case cauldron_data of
         None \<Rightarrow> Inr (invalid_cauldron, st)
       | Some c \<Rightarrow>
           if c = [] then Inr (invalid_cauldron, st)
           else
             ebind (dict_item c ''name'') (\<lambda>name.
               Inr (Response
                      (JDict [(''status'', JStr ''success''),
                              (''message'',
                               JStr (''Courier witch dispatched to '' @ py_str rt name
                                     @ ''. (Simulation)''))]),
                    st\<lparr>stdout :=
                         stdout st @ [''SIMULATED DISPATCH: Courier sent to '' @ py_str rt name]\<rparr>))))"

section \<open>Definitions used to state the properties\<close>

text \<open>
  A runtime to evaluate the handlers on concrete inputs: no string parses as a float.
  The general results below hold for every runtime.
\<close>

definition sample_rt :: pyrt where
  "sample_rt = \<lparr>float_of_str = (\<lambda>s. None), str_of = (\<lambda>v. ''?''), fmt_1f = (\<lambda>r. ''?''),
     exc_str = (\<lambda>e. ''error'')\<rparr>"

text \<open>
  A record of a time series carries a map of levels by asset id: it is a dict with a dict
  under \<^verbatim>\<open>cauldron_levels\<close>.
\<close>

definition record_levels :: "json \<Rightarrow> dict option" where
  "record_levels r =
     (case r of
        JDict d \<Rightarrow> (case map_of d ''cauldron_levels'' of Some (JDict lv) \<Rightarrow> Some lv | _ \<Rightarrow> None)
      | _ \<Rightarrow> None)"

definition has_levels :: "json \<Rightarrow> bool" where
  "has_levels r = (record_levels r \<noteq> None)"

text \<open>
  The map a levels dict stands for, each value replaced by its float where \<^verbatim>\<open>float\<close>
  accepts it and kept as it is where \<^verbatim>\<open>float\<close> raises.
\<close>

definition coerced_levels :: "pyrt \<Rightarrow> dict \<Rightarrow> (key \<rightharpoonup> json)" where
  "coerced_levels rt lv =
     (\<lambda>k. case k of
            KStr s \<Rightarrow>
              (case map_of lv s of
                 None \<Rightarrow> None
               | Some v \<Rightarrow> Some (case py_float rt v of Inr f \<Rightarrow> JFloat f | Inl e \<Rightarrow> v))
          | _ \<Rightarrow> None)"
text \<open>An \<^verbatim>\<open>int\<close> of 310 digits, too large for a float.\<close>

definition huge_int :: int where
  "huge_int = 10 ^ 309"

text \<open>
  The catalog and the live levels as the data model describes them: an asset has an id and a
  positive numeric maximum capacity, a live level is a number or null.
\<close>

definition asset_key :: "dict \<Rightarrow> key option" where
  "asset_key c =
     (case map_of c ''id'' of
        None \<Rightarrow> None
      | Some i \<Rightarrow>
          (case py_key i of Inl e \<Rightarrow> None | Inr k \<Rightarrow> if k = KNaN then None else Some k))"

definition capacity :: "dict \<Rightarrow> rat option" where
  "capacity c = (case map_of c ''max_volume'' of None \<Rightarrow> None | Some v \<Rightarrow> num_val v)"

definition wf_asset :: "dict \<Rightarrow> bool" where
  "wf_asset c =
     (asset_key c \<noteq> None \<and> (case capacity c of None \<Rightarrow> False | Some cap \<Rightarrow> 0 < cap))"

definition level_values :: "(key \<rightharpoonup> json) \<Rightarrow> bool" where
  "level_values m = (\<forall>k v. m k = Some v \<longrightarrow> v = JNull \<or> num_val v \<noteq> None)"

text \<open>The live level of an asset, when the map has a number for it.\<close>

definition live_level :: "(key \<rightharpoonup> json) \<Rightarrow> dict \<Rightarrow> rat option" where
  "live_level m c =
     (case asset_key c of
        None \<Rightarrow> None
      | Some k \<Rightarrow> (case m k of None \<Rightarrow> None | Some v \<Rightarrow> num_val v))"

definition overflow :: "(key \<rightharpoonup> json) \<Rightarrow> dict \<Rightarrow> bool" where
  "overflow m c =
     (case (live_level m c, capacity c) of (Some l, Some cap) \<Rightarrow> cap \<le> l | _ \<Rightarrow> False)"

definition current_level :: "(key \<rightharpoonup> json) \<Rightarrow> dict \<Rightarrow> json" where
  "current_level m c =
     (case asset_key c of
        None \<Rightarrow> JInt 0
      | Some k \<Rightarrow> (case m k of None \<Rightarrow> JInt 0 | Some v \<Rightarrow> if v = JNull then JInt 0 else v))"

text \<open>The merged record of an asset: its static fields, its current level, its overflow flag.\<close>

definition merged_record :: "(key \<rightharpoonup> json) \<Rightarrow> dict \<Rightarrow> dict" where
  "merged_record m c =
     AList.update ''anomaly'' (JBool (overflow m c))
       (AList.update ''current_level'' (current_level m c) c)"

text \<open>
  A merged status record as the forecaster reads it: a dict with an id, a name and finite
  numbers for the current level, the capacity and the fill rate.
\<close>

definition field :: "string \<Rightarrow> json \<Rightarrow> json option" where
  "field k c = (case c of JDict d \<Rightarrow> map_of d k | _ \<Rightarrow> None)"

definition field_num :: "string \<Rightarrow> json \<Rightarrow> rat option" where
  "field_num k c = (case field k c of None \<Rightarrow> None | Some v \<Rightarrow> num_val v)"

definition wf_status :: "json \<Rightarrow> bool" where
  "wf_status c =
     (field_num ''current_level'' c \<noteq> None \<and> field_num ''max_volume'' c \<noteq> None
      \<and> field_num ''fill_rate_per_min'' c \<noteq> None
      \<and> field ''id'' c \<noteq> None \<and> field ''name'' c \<noteq> None)"

text \<open>The current level is strictly below the capacity; and the fill rate is positive too.\<close>

definition below_capacity :: "json \<Rightarrow> bool" where
  "below_capacity c =
     (case (field_num ''current_level'' c, field_num ''max_volume'' c) of
        (Some l, Some cap) \<Rightarrow> l < cap
      | _ \<Rightarrow> False)"

definition below_capacity_and_filling :: "json \<Rightarrow> bool" where
  "below_capacity_and_filling c =
     (below_capacity c
      \<and> (case field_num ''fill_rate_per_min'' c of Some rate \<Rightarrow> 0 < rate | None \<Rightarrow> False))"

text \<open>
  The arithmetic of the forecast in Python's numbers: capacity - current level, and that
  difference divided by the fill rate and rounded to one decimal. \<open>None\<close> when the
  operation raises, as it does for an \<^verbatim>\<open>int\<close> or a quotient too large for a float.
\<close>

definition liters_to_full :: "json \<Rightarrow> json option" where
  "liters_to_full c =
     (case (field ''max_volume'' c, field ''current_level'' c) of
        (Some cap, Some cur) \<Rightarrow> (case py_sub cap cur of Inr d \<Rightarrow> Some d | Inl e \<Rightarrow> None)
      | _ \<Rightarrow> None)"

definition minutes_to_full :: "json \<Rightarrow> pyfloat option" where
  "minutes_to_full c =
     (case (liters_to_full c, field ''fill_rate_per_min'' c) of
        (Some d, Some rate) \<Rightarrow>
          (case py_truediv d rate of Inr q \<Rightarrow> Some (py_round1 q) | Inl e \<Rightarrow> None)
      | _ \<Rightarrow> None)"

definition arithmetic_defined :: "json \<Rightarrow> bool" where
  "arithmetic_defined c =
     ((below_capacity c \<longrightarrow> liters_to_full c \<noteq> None)
      \<and> (below_capacity_and_filling c \<longrightarrow> minutes_to_full c \<noteq> None))"

definition forecast_entry :: "json \<Rightarrow> json" where
  "forecast_entry c =
     JDict [(''cauldron_id'', case field ''id'' c of Some i \<Rightarrow> i | None \<Rightarrow> JNull),
            (''name'', case field ''name'' c of Some n \<Rightarrow> n | None \<Rightarrow> JNull),
            (''time_to_full_min'',
             case minutes_to_full c of Some t \<Rightarrow> JFloat t | None \<Rightarrow> JNull)]"

text \<open>
  A catalog entry as the data model describes it for dispatch: it has an id and a display
  name. An asset id is known when an entry of the catalog has an id equal to it.
\<close>

definition has_id_and_name :: "dict \<Rightarrow> bool" where
  "has_id_and_name c = (map_of c ''id'' \<noteq> None \<and> map_of c ''name'' \<noteq> None)"

definition matches_id :: "json \<Rightarrow> dict \<Rightarrow> bool" where
  "matches_id cauldron_id c = py_eq (dict_get c ''id'') cauldron_id"

definition known_asset :: "json \<Rightarrow> dict list \<Rightarrow> bool" where
  "known_asset cauldron_id catalog = list_ex (matches_id cauldron_id) catalog"

text \<open>A process state to evaluate dispatch on.\<close>

definition sample_state :: process_state where
  "sample_state =
     \<lparr>static = \<lparr>cauldrons = [[(''id'', JStr ''cauldron_001''), (''name'', JStr ''Alpha Pot'')]],
                network = JList [], market = JDict [], couriers = JList []\<rparr>,
      stdout = []\<rparr>"


text \<open>
  A forecast entry as the forecaster builds it: a dict with a hashable \<^verbatim>\<open>cauldron_id\<close> and
  a float \<^verbatim>\<open>time_to_full_min\<close>. An asset has a forecast entry when an entry of the list
  carries its id; an id that is NaN is equal to no id.
\<close>

definition entry_hash :: "json \<Rightarrow> key option" where
  "entry_hash f =
     (case f of
        JDict d \<Rightarrow> (case py_key (dict_get d ''cauldron_id'') of Inl e \<Rightarrow> None | Inr k \<Rightarrow> Some k)
      | _ \<Rightarrow> None)"

definition entry_key :: "json \<Rightarrow> key option" where
  "entry_key f =
     (case entry_hash f of None \<Rightarrow> None | Some k \<Rightarrow> if k = KNaN then None else Some k)"

definition entry_time :: "json \<Rightarrow> pyfloat option" where
  "entry_time f =
     (case f of
        JDict d \<Rightarrow> (case map_of d ''time_to_full_min'' of Some (JFloat t) \<Rightarrow> Some t | _ \<Rightarrow> None)
      | _ \<Rightarrow> None)"

definition is_forecast_entry :: "json \<Rightarrow> bool" where
  "is_forecast_entry f = (entry_hash f \<noteq> None \<and> entry_time f \<noteq> None)"

definition has_forecast :: "json list \<Rightarrow> key \<Rightarrow> bool" where
  "has_forecast fs k = list_ex (\<lambda>f. entry_key f = Some k) fs"

text \<open>
  The percentage of the specification: a missing or zero capacity counts as 1, a missing
  level as 0; the level is divided by the float of the capacity, multiplied by 100 and
  rounded to one decimal, and the result is 0.0 when the conversion or the division raises.
\<close>

definition capacity_or_1 :: "dict \<Rightarrow> json" where
  "capacity_or_1 c =
     (case map_of c ''max_volume'' of
        None \<Rightarrow> JInt 1
      | Some v \<Rightarrow> if truthy v then v else JInt 1)"

definition level_or_0 :: "dict \<Rightarrow> json" where
  "level_or_0 c =
     (case map_of c ''current_level'' of
        None \<Rightarrow> JInt 0
      | Some v \<Rightarrow> if truthy v then v else JInt 0)"

definition percent_of :: "pyrt \<Rightarrow> json \<Rightarrow> json \<Rightarrow> pyfloat" where
  "percent_of rt cap cur =
     (case py_float rt cap of
        Inl e \<Rightarrow> Fin 0
      | Inr m \<Rightarrow>
          (case py_truediv cur (JFloat m) of
             Inl e \<Rightarrow> Fin 0
           | Inr q \<Rightarrow> py_round1 (fmul q (Fin 100))))"

section \<open>Rounding to a double\<close>

text \<open>The exponent computed from the bit lengths is the exponent of the value.\<close>

lemma pow2_pos: "0 < pow2 k"
  by (simp add: pow2_def)

lemma pow2_add: "pow2 (a + b) = pow2 a * pow2 b"
  by (simp add: pow2_def power_int_add)

lemma pow2_diff: "pow2 (a - b) = pow2 a / pow2 b"
  by (simp add: pow2_def power_int_diff)

lemma pow2_nat: "0 \<le> k \<Longrightarrow> pow2 k = 2 ^ nat k"
  by (simp add: pow2_def power_int_def)

lemma pow2_strict_mono: "a < b \<Longrightarrow> pow2 a < pow2 b"
  unfolding pow2_def by (rule power_int_strict_increasing) simp_all

lemma pow2_mono: "a \<le> b \<Longrightarrow> pow2 a \<le> pow2 b"
  unfolding pow2_def by (rule power_int_increasing) simp_all

lemma pow2_less_cancel: "pow2 a < pow2 b \<Longrightarrow> a < b"
  using pow2_mono [of b a] by (cases "a < b") auto

lemma bitlen_rat_bounds:
  assumes "0 < p"
  shows "pow2 (bitlen p - 1) \<le> of_int p" and "of_int p < pow2 (bitlen p)"
proof -
  have b: "1 \<le> bitlen p" using assms by (auto simp: bitlen_alt_def)
  from bitlen_bounds [OF assms] have l: "2 ^ nat (bitlen p - 1) \<le> p" and u: "p < 2 ^ nat (bitlen p)"
    by simp_all
  have "(of_int (2 ^ nat (bitlen p - 1)) :: rat) \<le> of_int p" using l by (simp only: of_int_le_iff)
  then show "pow2 (bitlen p - 1) \<le> of_int p" using b by (simp add: pow2_nat)
  have "(of_int p :: rat) < of_int (2 ^ nat (bitlen p))" using u by (simp only: of_int_less_iff)
  then show "of_int p < pow2 (bitlen p)" using b by (simp add: pow2_nat)
qed

lemma exponent_bounds:
  assumes "x \<noteq> 0"
  shows "pow2 (exponent x) \<le> \<bar>x\<bar> \<and> \<bar>x\<bar> < pow2 (exponent x + 1)"
proof -
  obtain p q where pq: "quotient_of \<bar>x\<bar> = (p, q)" by (cases "quotient_of \<bar>x\<bar>")
  have q: "0 < q" by (rule quotient_of_denom_pos [OF pq])
  have x: "\<bar>x\<bar> = of_int p / of_int q" by (rule quotient_of_div [OF pq])
  have "0 < \<bar>x\<bar>" using assms by simp
  then have p: "0 < p" using q unfolding x by (simp add: zero_less_divide_iff)
  define e0 where "e0 = bitlen p - bitlen q"
  note bp = bitlen_rat_bounds [OF p] and bq = bitlen_rat_bounds [OF q]
  have qpos: "(0::rat) < of_int q" using q by simp
  have up: "\<bar>x\<bar> < pow2 (e0 + 1)"
  proof -
    have "of_int p / of_int q < pow2 (bitlen p) / (of_int q :: rat)"
      using bp(2) qpos by (simp add: divide_strict_right_mono)
    also have "\<dots> \<le> pow2 (bitlen p) / pow2 (bitlen q - 1)"
      using bq(1) pow2_pos [of "bitlen q - 1"] pow2_pos [of "bitlen p"]
      by (simp add: frac_le)
    also have "\<dots> = pow2 (e0 + 1)"
      unfolding e0_def pow2_diff [symmetric] by (simp add: algebra_simps)
    finally show ?thesis unfolding x .
  qed
  have lo: "pow2 (e0 - 1) \<le> \<bar>x\<bar>"
  proof -
    have "pow2 (e0 - 1) = pow2 (bitlen p - 1) / pow2 (bitlen q)"
      unfolding e0_def pow2_diff [symmetric] by (simp add: algebra_simps)
    also have "\<dots> \<le> of_int p / pow2 (bitlen q)"
      using bp(1) pow2_pos [of "bitlen q"] by (simp add: divide_right_mono)
    also have "\<dots> \<le> of_int p / of_int q"
      using bq(2) qpos p by (simp add: frac_le)
    finally show ?thesis unfolding x .
  qed
  show ?thesis
  proof (cases "pow2 e0 \<le> \<bar>x\<bar>")
    case True
    then have "exponent x = e0" by (simp add: exponent_def pq e0_def Let_def)
    then show ?thesis using True up by simp
  next
    case False
    then have "exponent x = e0 - 1" by (simp add: exponent_def pq e0_def Let_def)
    then show ?thesis using False lo by simp
  qed
qed

lemma exponent_unique:
  assumes "pow2 e \<le> \<bar>x\<bar>" and "\<bar>x\<bar> < pow2 (e + 1)"
  shows "exponent x = e"
proof -
  have "x \<noteq> 0" using assms(1) pow2_pos [of e] by auto
  from exponent_bounds [OF this]
  have l: "pow2 (exponent x) \<le> \<bar>x\<bar>" and u: "\<bar>x\<bar> < pow2 (exponent x + 1)" by simp_all
  have "pow2 e < pow2 (exponent x + 1)" using assms(1) u by simp
  then have a: "e < exponent x + 1" by (rule pow2_less_cancel)
  have "pow2 (exponent x) < pow2 (e + 1)" using l assms(2) by simp
  then have b: "exponent x < e + 1" by (rule pow2_less_cancel)
  show ?thesis using a b by simp
qed

lemma round_half_even_int: "round_half_even (of_int n) = n"
  by (simp add: round_half_even_def)

lemma round_half_even_ge: "of_int \<lfloor>x\<rfloor> \<le> (of_int (round_half_even x) :: rat)"
  by (simp add: round_half_even_def Let_def)

text \<open>
  Rounding to an integer, and what follows for the conversion of an \<^verbatim>\<open>int\<close>: it is exact
  up to \<open>2^53\<close> and raises OverflowError from \<open>2^1024\<close> on.
\<close>

lemma round_half_even_cases:
  "round_half_even x = \<lfloor>x\<rfloor> \<or> round_half_even x = \<lfloor>x\<rfloor> + 1"
  by (simp add: round_half_even_def Let_def)

lemma round_half_even_lower: "of_int n \<le> x \<Longrightarrow> n \<le> round_half_even x"
proof -
  assume "of_int n \<le> x"
  then have "n \<le> \<lfloor>x\<rfloor>" by (simp add: le_floor_iff)
  then show ?thesis using round_half_even_cases [of x] by auto
qed

lemma round_half_even_upper: "x \<le> of_int n \<Longrightarrow> round_half_even x \<le> n"
proof -
  assume a: "x \<le> of_int n"
  then have f: "\<lfloor>x\<rfloor> \<le> n" by (simp add: floor_le_iff)
  show ?thesis
  proof (cases "\<lfloor>x\<rfloor> = n")
    case True
    then have "of_int n \<le> x" by (metis of_int_floor_le)
    then have "x = of_int n" using a by simp
    then show ?thesis by (simp add: round_half_even_int)
  next
    case False
    then have "\<lfloor>x\<rfloor> + 1 \<le> n" using f by simp
    then show ?thesis using round_half_even_cases [of x] f by auto
  qed
qed

lemma round_half_even_eq:
  assumes "of_int m - 1 / 2 < x" and "x < of_int m + 1 / 2"
  shows "round_half_even x = m"
proof -
  have "\<lfloor>x\<rfloor> = m \<or> \<lfloor>x\<rfloor> = m - 1"
  proof -
    have "of_int (m - 1) \<le> x" using assms(1) by simp
    then have "m - 1 \<le> \<lfloor>x\<rfloor>" by (simp only: le_floor_iff)
    moreover have "x < of_int (m + 1)" using assms(2) by simp
    then have "\<lfloor>x\<rfloor> < m + 1" by (simp only: floor_less_iff)
    ultimately show ?thesis by linarith
  qed
  then show ?thesis
  proof
    assume f: "\<lfloor>x\<rfloor> = m"
    then have "x - of_int \<lfloor>x\<rfloor> < 1 / 2" using assms(2) by simp
    then show ?thesis by (simp add: round_half_even_def Let_def f)
  next
    assume f: "\<lfloor>x\<rfloor> = m - 1"
    then have "1 / 2 < x - of_int \<lfloor>x\<rfloor>" using assms(1) by simp
    then show ?thesis by (simp add: round_half_even_def Let_def f)
  qed
qed

lemma round_to_double_eval:
  assumes "pow2 e \<le> \<bar>x\<bar>" and "\<bar>x\<bar> < pow2 (e + 1)" and "- 1022 \<le> e"
      and "round_half_even (x / pow2 (e - 52)) = m"
  shows "round_to_double x = of_int m * pow2 (e - 52)"
proof -
  have "x \<noteq> 0" using assms(1) pow2_pos [of e] by auto
  moreover have "exponent x = e" by (rule exponent_unique [OF assms(1,2)])
  ultimately show ?thesis using assms(3,4) by (simp add: round_to_double_def Let_def max_def)
qed

lemma round_to_double_of_int:
  assumes "\<bar>i\<bar> \<le> 2 ^ 53"
  shows "round_to_double (of_int i) = of_int i"
proof (cases "i = 0")
  case True
  then show ?thesis by (simp add: round_to_double_def)
next
  case False
  define x :: rat where "x = of_int i"
  define e where "e = exponent x"
  have x0: "x \<noteq> 0" using False by (simp add: x_def)
  from exponent_bounds [OF x0] have l: "pow2 e \<le> \<bar>x\<bar>" and u: "\<bar>x\<bar> < pow2 (e + 1)"
    by (simp_all add: e_def)
  have ax: "\<bar>x\<bar> = of_int \<bar>i\<bar>" by (simp add: x_def)
  have "(1::rat) \<le> \<bar>x\<bar>" using False unfolding ax by (simp only: of_int_1_le_iff)
  then have "pow2 0 < pow2 (e + 1)" using u by (simp add: pow2_def)
  then have e0: "0 \<le> e" using pow2_less_cancel [of 0 "e + 1"] by simp
  have "\<bar>x\<bar> \<le> pow2 53"
  proof -
    have "(of_int \<bar>i\<bar> :: rat) \<le> of_int (2 ^ 53)" using assms by (simp only: of_int_le_iff)
    then show ?thesis unfolding ax by (simp add: pow2_def)
  qed
  then have "pow2 e < pow2 54" using l pow2_strict_mono [of 53 54] by simp
  then have e53: "e \<le> 53" using pow2_less_cancel [of e 54] by simp
  have ulp: "max e (- 1022) - 52 = e - 52" using e0 by simp
  have "\<exists>n. x / pow2 (e - 52) = of_int n"
  proof (cases "e \<le> 52")
    case True
    have "x / pow2 (e - 52) = x * pow2 (52 - e)"
      using pow2_add [of "e - 52" "52 - e"] pow2_pos [of "e - 52"]
      by (simp add: pow2_def field_simps)
    also have "\<dots> = of_int (i * 2 ^ nat (52 - e))"
      using True by (simp add: x_def pow2_nat)
    finally show ?thesis by blast
  next
    case False
    then have e: "e = 53" using e53 by simp
    have "\<bar>x\<bar> = pow2 53" using l \<open>\<bar>x\<bar> \<le> pow2 53\<close> unfolding e by simp
    then have "\<bar>i\<bar> = 2 ^ 53"
    proof -
      assume "\<bar>x\<bar> = pow2 53"
      then have "(of_int \<bar>i\<bar> :: rat) = of_int (2 ^ 53)" unfolding ax by (simp add: pow2_def)
      then show ?thesis by (simp only: of_int_eq_iff)
    qed
    then have "i = 2 ^ 53 \<or> i = - (2 ^ 53)" by linarith
    then have "x / pow2 (e - 52) = of_int (i div 2)"
      unfolding e x_def by (auto simp: pow2_def)
    then show ?thesis by blast
  qed
  then obtain n where n: "x / pow2 (e - 52) = of_int n" by blast
  have "round_to_double x = of_int n * pow2 (e - 52)"
    using x0 by (simp add: round_to_double_def Let_def ulp n round_half_even_int
        flip: e_def)
  also have "\<dots> = x" using n pow2_pos [of "e - 52"] by (simp add: field_simps)
  finally show ?thesis by (simp add: x_def)
qed

lemma not_overflows_small: "\<bar>r\<bar> < 2 ^ 1024 \<Longrightarrow> \<not> overflows r"
  by (simp add: overflows_def pow2_def)

lemma int_to_float_exact:
  assumes "\<bar>i\<bar> \<le> 2 ^ 53"
  shows "int_to_float i = Inr (Fin (of_int i))"
proof -
  have "(of_int \<bar>i\<bar> :: rat) \<le> of_int (2 ^ 53)" using assms by (simp only: of_int_le_iff)
  then have "\<bar>of_int i :: rat\<bar> < 2 ^ 1024" by simp
  then have "\<not> overflows (of_int i)" by (rule not_overflows_small)
  then show ?thesis by (simp add: int_to_float_def round_to_double_of_int [OF assms])
qed

lemma round_to_double_overflow:
  assumes "pow2 1024 \<le> \<bar>x\<bar>"
  shows "overflows (round_to_double x)"
proof -
  have x0: "x \<noteq> 0" using assms pow2_pos [of 1024] by auto
  define e where "e = exponent x"
  from exponent_bounds [OF x0] have l: "pow2 e \<le> \<bar>x\<bar>" and u: "\<bar>x\<bar> < pow2 (e + 1)"
    by (simp_all add: e_def)
  have "pow2 1024 < pow2 (e + 1)" using assms u by simp
  then have e: "1024 \<le> e" using pow2_less_cancel [of 1024 "e + 1"] by simp
  define ulp where "ulp = pow2 (e - 52)"
  have up: "0 < ulp" by (simp add: ulp_def pow2_pos)
  have r: "round_to_double x = of_int (round_half_even (x / ulp)) * ulp"
    using x0 e by (simp add: round_to_double_def Let_def ulp_def max_def flip: e_def)
  have q: "pow2 e / ulp = of_int (2 ^ 52)"
    unfolding ulp_def pow2_diff [symmetric] by (simp add: pow2_def)
  have big: "(2 ^ 52 :: int) \<le> \<bar>round_half_even (x / ulp)\<bar>"
  proof (cases "0 \<le> x")
    case True
    then have "pow2 e / ulp \<le> x / ulp" using l up by (simp add: divide_right_mono)
    then have "2 ^ 52 \<le> round_half_even (x / ulp)"
      unfolding q by (rule round_half_even_lower)
    then show ?thesis by simp
  next
    case False
    then have "x / ulp \<le> - (pow2 e / ulp)" using l up by (simp add: field_simps)
    then have "x / ulp \<le> of_int (- (2 ^ 52))" unfolding q by simp
    then have "round_half_even (x / ulp) \<le> - (2 ^ 52)" by (rule round_half_even_upper)
    then show ?thesis by simp
  qed
  have "pow2 1024 \<le> pow2 e" using e by (rule pow2_mono)
  also have "\<dots> = of_int (2 ^ 52) * ulp" using q up by (simp add: field_simps)
  also have "\<dots> \<le> of_int \<bar>round_half_even (x / ulp)\<bar> * ulp"
    using big up by (simp only: mult_le_cancel_right_pos of_int_le_iff)
  also have "\<dots> = \<bar>round_to_double x\<bar>" using up by (simp add: r abs_mult)
  finally show ?thesis by (simp add: overflows_def)
qed

lemma int_to_float_overflow:
  "2 ^ 1024 \<le> \<bar>i\<bar> \<Longrightarrow> int_to_float i = Inl OverflowError"
proof -
  assume "2 ^ 1024 \<le> \<bar>i\<bar>"
  then have "(of_int (2 ^ 1024) :: rat) \<le> of_int \<bar>i\<bar>" by (simp only: of_int_le_iff)
  then have "pow2 1024 \<le> \<bar>of_int i :: rat\<bar>" by (simp add: pow2_def)
  then show ?thesis by (simp add: int_to_float_def round_to_double_overflow)
qed

lemma round_to_double_eval':
  assumes "pow2 e \<le> \<bar>x\<bar>" and "\<bar>x\<bar> < pow2 (e + 1)" and "- 1022 \<le> e"
      and "of_int m - 1 / 2 < x / pow2 (e - 52)" and "x / pow2 (e - 52) < of_int m + 1 / 2"
      and "r = of_int m * pow2 (e - 52)"
  shows "round_to_double x = r"
  using round_to_double_eval [OF assms(1,2,3) round_half_even_eq [OF assms(4,5)]] assms(6)
  by simp

section \<open>The live level normaliser\<close>

lemma huge_int_overflows: "int_to_float huge_int = Inl OverflowError"
  by (rule int_to_float_overflow) (simp add: huge_int_def)


lemma float_not_null: "py_float rt v = Inr r \<Longrightarrow> v \<noteq> JNull"
  by auto

lemma float_not_list: "py_float rt v = Inr r \<Longrightarrow> \<not> is_list v"
  by (cases v) auto

text \<open>
  A payload that is neither a list nor a dict (a number, a string, a boolean, null) is not
  rejected: it passes lines 97 to 176 with an empty map of levels.
\<close>

lemma scalar_payload_empty_map:
  "\<not> is_list v \<Longrightarrow> (\<forall>d. v \<noteq> JDict d) \<Longrightarrow> normalize_levels rt v = Inr (Some Map.empty)"
  by (cases v) (simp_all add: normalize_levels_def unwrap_payload_def build_levels_map_def)

lemma bare_number_levels:
  "get_cauldron_levels rt [[(''id'', JStr ''a''), (''max_volume'', JInt 100)]]
     (Replied 200 (Some (JInt 5)))
   = Inr (Response (JList [JDict [(''id'', JStr ''a''), (''max_volume'', JInt 100),
                                  (''current_level'', JInt 0), (''anomaly'', JBool False)]]))"
  by (simp add: get_cauldron_levels_def normalize_levels_def unwrap_payload_def
      build_levels_map_def merge_one_def dict_item_def map_get_def)

text \<open>
  Claim C1. An unrecognised payload is to be reported as a format error, never answered with
  an empty or all-zero success. The code does so only for a dict of unknown shape (line 114).
  For the bare number 5 the operation answers with status 200 and a level of 0 for the asset
  of the catalog.
\<close>

theorem bare_number_payload_all_zero_success:
  "get_cauldron_levels sample_rt [[(''id'', JStr ''a''), (''max_volume'', JInt 100)]]
     (Replied 200 (Some (JInt 5)))
   = Inr (Response (JList [JDict [(''id'', JStr ''a''), (''max_volume'', JInt 100),
                                  (''current_level'', JInt 0), (''anomaly'', JBool False)]]))"
  by (rule bare_number_levels)

lemma first_present_unique:
  "k \<in> set ks \<Longrightarrow> map_of item k = Some x \<Longrightarrow>
   (\<forall>k' \<in> set ks. k' \<noteq> k \<longrightarrow> map_of item k' = None) \<Longrightarrow> first_present ks item = x"
  by (induction ks) (auto split: option.splits)

lemma id_level_keys_disjoint: "k \<in> set id_keys \<Longrightarrow> k \<notin> set level_keys"
  by (auto simp: id_keys_def level_keys_def)

lemma flat_item_key:
  assumes "idk \<in> set id_keys" "lk \<in> set level_keys"
  shows "first_present id_keys [(idk, x), (lk, v)] = x"
proof (rule first_present_unique [OF assms(1)])
  show "map_of [(idk, x), (lk, v)] idk = Some x" by simp
  show "\<forall>k'\<in>set id_keys. k' \<noteq> idk \<longrightarrow> map_of [(idk, x), (lk, v)] k' = None"
    using assms(2) id_level_keys_disjoint by auto
qed

lemma flat_item_level:
  assumes "idk \<in> set id_keys" "lk \<in> set level_keys"
  shows "first_present level_keys [(idk, x), (lk, v)] = v"
proof (rule first_present_unique [OF assms(2)])
  show "map_of [(idk, x), (lk, v)] lk = Some v" using assms id_level_keys_disjoint by auto
  show "\<forall>k'\<in>set level_keys. k' \<noteq> lk \<longrightarrow> map_of [(idk, x), (lk, v)] k' = None"
    using assms(1) id_level_keys_disjoint by auto
qed

text \<open>
  One round of the flat list branch on a record of one id and one level: the level is
  stored as its float, and as \<^verbatim>\<open>None\<close> when \<^verbatim>\<open>float\<close> raises (line 166).
\<close>

lemma flat_step_item:
  assumes "idk \<in> set id_keys" "lk \<in> set level_keys" "v \<noteq> JNull"
  shows "flat_step rt (JDict [(idk, JStr a), (lk, v)]) m
         = Inr (m(KStr a \<mapsto> (case py_float rt v of Inr f \<Rightarrow> JFloat f | Inl e \<Rightarrow> JNull)))"
  using assms(3)
  by (simp add: item_key_def item_level_def flat_item_key [OF assms(1,2)]
      flat_item_level [OF assms(1,2)] map_put_def)

lemma id_key_not_levels: "k \<in> set id_keys \<Longrightarrow> k \<noteq> ''cauldron_levels''"
  by (auto simp: id_keys_def)

lemma level_key_not_levels: "k \<in> set level_keys \<Longrightarrow> k \<noteq> ''cauldron_levels''"
  by (auto simp: level_keys_def)

lemma id_key_single: "k \<in> set id_keys \<Longrightarrow> k \<in> set single_object_keys"
  by (auto simp: id_keys_def single_object_keys_def)

lemma flat_item_no_levels:
  assumes "idk \<in> set id_keys" "lk \<in> set level_keys"
  shows "cauldron_levels_of (JDict [(idk, x), (lk, v)]) = None"
  using id_key_not_levels [OF assms(1)] level_key_not_levels [OF assms(2)] by simp

lemma build_flat_item:
  assumes "idk \<in> set id_keys" "lk \<in> set level_keys" "v \<noteq> JNull"
  shows "build_levels_map rt (JList [JDict [(idk, JStr a), (lk, v)]])
         = Inr [KStr a \<mapsto> (case py_float rt v of Inr f \<Rightarrow> JFloat f | Inl e \<Rightarrow> JNull)]"
  unfolding build_levels_map_def
  by (simp add: flat_item_no_levels [OF assms(1,2)] flat_step_item [OF assms]
      del: flat_step.simps cauldron_levels_of.simps)

lemma build_time_series:
  assumes "map_of d ''cauldron_levels'' = Some (JDict [(a, v)])"
  shows "build_levels_map rt (JList [JDict d])
         = Inr [KStr a \<mapsto> (case py_float rt v of Inr f \<Rightarrow> JFloat f | Inl e \<Rightarrow> v)]"
  by (simp add: build_levels_map_def latest_levels_def coerce_items_def coerce_level_def assms)

lemma find_wrapper_only:
  assumes "w \<in> set wrappers"
  shows "find (\<lambda>wrapper. has_key [(w, JList xs)] wrapper
                \<and> is_list (dict_get [(w, JList xs)] wrapper)) wrappers = Some w"
proof -
  have "(\<lambda>wrapper. has_key [(w, JList xs)] wrapper \<and> is_list (dict_get [(w, JList xs)] wrapper))
        = (\<lambda>wrapper. wrapper = w)"
    by (auto simp: has_key_def dict_get_def fun_eq_iff)
  moreover have "find (\<lambda>wrapper. wrapper = w) wrappers = Some w"
    using assms by (auto simp: wrappers_def)
  ultimately show ?thesis by simp
qed

lemma unwrap_wrapped:
  assumes "w \<in> set wrappers"
  shows "unwrap_payload (JDict [(w, JList xs)]) = Some (JList xs)"
  by (simp add: unwrap_payload_def find_wrapper_only [OF assms]) (simp add: dict_get_def)

lemma find_wrapper_single:
  assumes "\<not> is_list v"
  shows "find (\<lambda>wrapper. has_key [(idk, JStr a), (lk, v)] wrapper
                \<and> is_list (dict_get [(idk, JStr a), (lk, v)] wrapper)) wrappers = None"
proof -
  have "\<not> (has_key [(idk, JStr a), (lk, v)] wrapper
            \<and> is_list (dict_get [(idk, JStr a), (lk, v)] wrapper))" for wrapper
    using assms by (auto simp: has_key_def dict_get_def)
  then show ?thesis by (simp add: find_None_iff)
qed

lemma unwrap_single:
  assumes "\<not> is_list v" "idk \<in> set id_keys"
  shows "unwrap_payload (JDict [(idk, JStr a), (lk, v)])
         = Some (JList [JDict [(idk, JStr a), (lk, v)]])"
proof -
  have "list_ex (\<lambda>k. has_key [(idk, JStr a), (lk, v)] k) single_object_keys"
    unfolding list_ex_iff using id_key_single [OF assms(2)] by (auto simp: has_key_def)
  then show ?thesis
    by (simp add: unwrap_payload_def find_wrapper_single [OF assms(1)])
qed

lemma unwrap_list: "unwrap_payload (JList xs) = Some (JList xs)"
  by (simp add: unwrap_payload_def)

text \<open>
  Claim C2, as stated: the four encodings give the same map for every numeric level. The
  level \<open>huge_int\<close>, which is \<open>10^309\<close>, is an \<^verbatim>\<open>int\<close> too large for a float, so \<^verbatim>\<open>float\<close> raises OverflowError:
  the time series branch keeps the \<^verbatim>\<open>int\<close> (line 137), the flat list branch stores
  \<^verbatim>\<open>None\<close> (line 166).
\<close>

theorem encodings_differ_on_huge_int:
  "normalize_levels sample_rt
     (JList [JDict [(''cauldron_levels'', JDict [(''a'', JInt huge_int)])]])
   = Inr (Some [KStr ''a'' \<mapsto> JInt huge_int])
   \<and> normalize_levels sample_rt
       (JList [JDict [(''cauldronId'', JStr ''a''), (''currentVolume'', JInt huge_int)]])
     = Inr (Some [KStr ''a'' \<mapsto> JNull])"
proof -
  have o: "py_float sample_rt (JInt huge_int) = Inl OverflowError"
    by (simp add: huge_int_overflows)
  have a: "build_levels_map sample_rt
             (JList [JDict [(''cauldron_levels'', JDict [(''a'', JInt huge_int)])]])
           = Inr [KStr ''a'' \<mapsto> JInt huge_int]"
    using build_time_series [of "[(''cauldron_levels'', JDict [(''a'', JInt huge_int)])]"
        "''a''" "JInt huge_int" sample_rt]
    unfolding o by simp
  have b: "build_levels_map sample_rt
             (JList [JDict [(''cauldronId'', JStr ''a''), (''currentVolume'', JInt huge_int)]])
           = Inr [KStr ''a'' \<mapsto> JNull]"
    using build_flat_item [of "''cauldronId''" "''currentVolume''" "JInt huge_int" sample_rt "''a''"]
    unfolding o by (simp add: id_keys_def level_keys_def)
  show ?thesis
    by (simp add: normalize_levels_def unwrap_list a b)
qed

text \<open>
  Claim C2, amended. For an asset id \<open>a\<close> and a level \<open>v\<close> that \<^verbatim>\<open>float\<close> converts to \<open>f\<close>,
  the normaliser returns the same map, \<open>a\<close> to the float \<open>f\<close>, from each encoding: a time
  series of one record (a dict with the levels under \<^verbatim>\<open>cauldron_levels\<close>, whatever else it
  holds), a flat list of one record under any alias of the id and of the level, either list
  wrapped in a dict under any wrapper key, and the single asset dict.
\<close>

theorem normalizer_same_map_all_shapes:
  assumes "py_float rt v = Inr f"
      and "idk \<in> set id_keys" "lk \<in> set level_keys" "w \<in> set wrappers"
      and "map_of d ''cauldron_levels'' = Some (JDict [(a, v)])"
  shows "normalize_levels rt (JList [JDict d]) = Inr (Some [KStr a \<mapsto> JFloat f])
       \<and> normalize_levels rt (JList [JDict [(idk, JStr a), (lk, v)]])
           = Inr (Some [KStr a \<mapsto> JFloat f])
       \<and> normalize_levels rt (JDict [(w, JList [JDict [(idk, JStr a), (lk, v)]])])
           = Inr (Some [KStr a \<mapsto> JFloat f])
       \<and> normalize_levels rt (JDict [(w, JList [JDict d])]) = Inr (Some [KStr a \<mapsto> JFloat f])
       \<and> normalize_levels rt (JDict [(idk, JStr a), (lk, v)])
           = Inr (Some [KStr a \<mapsto> JFloat f])"
proof -
  note nn = float_not_null [OF assms(1)] and nl = float_not_list [OF assms(1)]
  have t: "build_levels_map rt (JList [JDict d]) = Inr [KStr a \<mapsto> JFloat f]"
    using build_time_series [OF assms(5), of rt] by (simp add: assms(1))
  have fl: "build_levels_map rt (JList [JDict [(idk, JStr a), (lk, v)]])
            = Inr [KStr a \<mapsto> JFloat f]"
    using build_flat_item [OF assms(2,3) nn, of rt a] by (simp add: assms(1))
  show ?thesis
    unfolding normalize_levels_def
    by (simp add: unwrap_list unwrap_wrapped [OF assms(4)] unwrap_single [OF nl assms(2)] t fl)
qed

theorem normalizer_same_map_all_shapes_witness:
  "normalize_levels sample_rt
     (JList [JDict [(''timestamp'', JInt 7), (''cauldron_levels'', JDict [(''a'', JFloat (Fin 1))])]])
     = Inr (Some [KStr ''a'' \<mapsto> JFloat (Fin 1)])
   \<and> normalize_levels sample_rt
       (JList [JDict [(''cauldronId'', JStr ''a''), (''currentVolume'', JFloat (Fin 1))]])
     = Inr (Some [KStr ''a'' \<mapsto> JFloat (Fin 1)])
   \<and> normalize_levels sample_rt
       (JDict [(''data'', JList [JDict [(''cauldronId'', JStr ''a''),
                                        (''currentVolume'', JFloat (Fin 1))]])])
     = Inr (Some [KStr ''a'' \<mapsto> JFloat (Fin 1)])
   \<and> normalize_levels sample_rt
       (JDict [(''data'', JList [JDict [(''timestamp'', JInt 7),
                                        (''cauldron_levels'', JDict [(''a'', JFloat (Fin 1))])]])])
     = Inr (Some [KStr ''a'' \<mapsto> JFloat (Fin 1)])
   \<and> normalize_levels sample_rt
       (JDict [(''cauldronId'', JStr ''a''), (''currentVolume'', JFloat (Fin 1))])
     = Inr (Some [KStr ''a'' \<mapsto> JFloat (Fin 1)])"
  using normalizer_same_map_all_shapes
    [of sample_rt "JFloat (Fin 1)" "Fin 1" "''cauldronId''" "''currentVolume''" "''data''"
        "[(''timestamp'', JInt 7), (''cauldron_levels'', JDict [(''a'', JFloat (Fin 1))])]" "''a''"]
  by (simp add: id_keys_def level_keys_def wrappers_def)

lemma record_levels_code: "cauldron_levels_of r = record_levels r"
  by (cases r) (simp_all add: record_levels_def)

lemma coerce_items_distinct:
  "distinct (map fst lv) \<Longrightarrow>
   coerce_items rt lv m =
     (\<lambda>k. case k of
            KStr s \<Rightarrow> (case map_of lv s of Some v \<Rightarrow> Some (coerce_level rt v) | None \<Rightarrow> m k)
          | _ \<Rightarrow> m k)"
proof (induction lv arbitrary: m)
  case Nil
  show ?case by (auto simp: coerce_items_def fun_eq_iff split: key.splits)
next
  case (Cons kv lv)
  obtain k v where kv: "kv = (k, v)" by (cases kv)
  have step: "coerce_items rt (kv # lv) m = coerce_items rt lv (m(KStr k \<mapsto> coerce_level rt v))"
    by (simp add: coerce_items_def kv)
  have d: "distinct (map fst lv)" and nk: "map_of lv k = None"
    using Cons.prems by (auto simp: kv map_of_eq_None_iff)
  show ?case
    unfolding step Cons.IH [OF d]
    using nk by (auto simp: kv fun_eq_iff split: key.splits option.splits)
qed

lemma coerce_items_empty:
  "distinct (map fst lv) \<Longrightarrow> coerce_items rt lv Map.empty = coerced_levels rt lv"
  unfolding coerce_items_distinct coerced_levels_def coerce_level_def
  by (auto simp: fun_eq_iff split: key.splits option.splits)

lemma first_levels_filter:
  "first_levels rs = (case filter has_levels rs of [] \<Rightarrow> None | r # _ \<Rightarrow> record_levels r)"
  by (induction rs) (auto simp: has_levels_def record_levels_code split: option.splits)

lemma latest_levels_last:
  assumes "filter has_levels rs \<noteq> []"
      and "record_levels (last (filter has_levels rs)) = Some lv"
  shows "latest_levels rs = lv"
proof -
  have "filter has_levels (rev rs) = rev (filter has_levels rs)" by (simp add: rev_filter)
  moreover obtain ys y where ys: "filter has_levels rs = ys @ [y]"
    using assms(1) by (meson rev_exhaust)
  ultimately have "first_levels (rev rs) = record_levels y"
    by (simp add: first_levels_filter)
  then show ?thesis using assms(2) ys by (simp add: latest_levels_def)
qed

lemma last_filter_holds:
  "xs \<noteq> [] \<Longrightarrow> P (last xs) \<Longrightarrow> last (filter P xs) = last xs"
proof (induction xs)
  case Nil
  then show ?case by simp
next
  case (Cons a xs)
  show ?case
  proof (cases "xs = []")
    case True
    then show ?thesis using Cons.prems by simp
  next
    case False
    then have "P (last xs)" using Cons.prems by simp
    moreover have "last xs \<in> set xs" using False by simp
    ultimately have "filter P xs \<noteq> []" by (auto simp: filter_empty_conv)
    then show ?thesis using Cons.IH [OF False \<open>P (last xs)\<close>] False by simp
  qed
qed

lemma time_series_normalized:
  assumes "has_levels first"
      and "record_levels (last (filter has_levels (first # rest))) = Some lv"
      and "distinct (map fst lv)"
  shows "normalize_levels rt (JList (first # rest)) = Inr (Some (coerced_levels rt lv))"
proof -
  have ne: "filter has_levels (first # rest) \<noteq> []" using assms(1) by simp
  have l: "latest_levels (first # rest) = lv"
    by (rule latest_levels_last [OF ne assms(2)])
  have f: "cauldron_levels_of first \<noteq> None"
    using assms(1) by (simp add: has_levels_def record_levels_code)
  have "normalize_levels rt (JList (first # rest)) = Inr (Some (coerce_items rt lv Map.empty))"
    using f l by (simp add: normalize_levels_def unwrap_payload_def build_levels_map_def)
  then show ?thesis by (simp add: coerce_items_empty [OF assms(3)])
qed

text \<open>
  Claim C8, as stated, with the last record read as the last list element: the list below
  ends with the number 5, which carries no map of levels, and the normaliser returns the
  levels of the record before it.
\<close>

theorem last_element_without_levels_is_skipped:
  "record_levels (last [JDict [(''cauldron_levels'', JDict [(''a'', JInt 1)])], JInt 5]) = None
   \<and> normalize_levels sample_rt
       (JList [JDict [(''cauldron_levels'', JDict [(''a'', JInt 1)])], JInt 5])
     = Inr (Some [KStr ''a'' \<mapsto> JFloat (Fin 1)])"
proof -
  have "normalize_levels sample_rt
       (JList [JDict [(''cauldron_levels'', JDict [(''a'', JInt 1)])], JInt 5])
     = Inr (Some (coerced_levels sample_rt [(''a'', JInt 1)]))"
    by (rule time_series_normalized) (simp_all add: has_levels_def record_levels_def)
  moreover have "coerced_levels sample_rt [(''a'', JInt 1)] = [KStr ''a'' \<mapsto> JFloat (Fin 1)]"
    by (auto simp: coerced_levels_def fun_eq_iff int_to_float_exact [of 1, simplified]
        split: key.splits)
  ultimately show ?thesis by (simp add: record_levels_def)
qed

text \<open>
  Claim C8, amended. For a non-empty list whose first element is a time series record, the
  normaliser returns the levels map of the last element of the list that carries one:
  elements without one are skipped, and when the last list element carries a map it is that
  one. Each value is replaced by its float where \<^verbatim>\<open>float\<close> accepts it and passed through
  unchanged where \<^verbatim>\<open>float\<close> raises.
\<close>

theorem time_series_latest_record:
  assumes "has_levels first"
      and "record_levels (last (filter has_levels (first # rest))) = Some lv"
      and "distinct (map fst lv)"
  shows "normalize_levels rt (JList (first # rest)) = Inr (Some (coerced_levels rt lv))
       \<and> (has_levels (last (first # rest)) \<longrightarrow>
            (\<exists>lv'. record_levels (last (first # rest)) = Some lv'
                  \<and> normalize_levels rt (JList (first # rest))
                    = Inr (Some (coerced_levels rt lv'))))"
proof -
  note n = time_series_normalized [OF assms, of rt]
  have "has_levels (last (first # rest)) \<Longrightarrow>
        record_levels (last (first # rest)) = Some lv"
  proof -
    assume "has_levels (last (first # rest))"
    then have "last (filter has_levels (first # rest)) = last (first # rest)"
      by (intro last_filter_holds) simp_all
    then show ?thesis using assms(2) by simp
  qed
  then show ?thesis using n by simp
qed

theorem time_series_latest_record_witness:
  "normalize_levels sample_rt
     (JList [JDict [(''timestamp'', JInt 1), (''cauldron_levels'', JDict [(''a'', JInt 5)])],
             JDict [(''timestamp'', JInt 2),
                    (''cauldron_levels'', JDict [(''a'', JInt 7), (''b'', JStr ''x'')])]])
   = Inr (Some (coerced_levels sample_rt [(''a'', JInt 7), (''b'', JStr ''x'')]))
   \<and> coerced_levels sample_rt [(''a'', JInt 7), (''b'', JStr ''x'')] (KStr ''a'')
     = Some (JFloat (Fin 7))
   \<and> coerced_levels sample_rt [(''a'', JInt 7), (''b'', JStr ''x'')] (KStr ''b'')
     = Some (JStr ''x'')"
proof -
  have "normalize_levels sample_rt
     (JList [JDict [(''timestamp'', JInt 1), (''cauldron_levels'', JDict [(''a'', JInt 5)])],
             JDict [(''timestamp'', JInt 2),
                    (''cauldron_levels'', JDict [(''a'', JInt 7), (''b'', JStr ''x'')])]])
   = Inr (Some (coerced_levels sample_rt [(''a'', JInt 7), (''b'', JStr ''x'')]))"
    using time_series_latest_record
      [of "JDict [(''timestamp'', JInt 1), (''cauldron_levels'', JDict [(''a'', JInt 5)])]"
          "[JDict [(''timestamp'', JInt 2),
                   (''cauldron_levels'', JDict [(''a'', JInt 7), (''b'', JStr ''x'')])]]"
          "[(''a'', JInt 7), (''b'', JStr ''x'')]" sample_rt]
    by (simp add: has_levels_def record_levels_def)
  moreover have
    "coerced_levels sample_rt [(''a'', JInt 7), (''b'', JStr ''x'')] (KStr ''a'')
     = Some (JFloat (Fin 7))"
    by (simp add: coerced_levels_def int_to_float_exact [of 7, simplified])
  moreover have
    "coerced_levels sample_rt [(''a'', JInt 7), (''b'', JStr ''x'')] (KStr ''b'')
     = Some (JStr ''x'')"
    by (simp add: coerced_levels_def sample_rt_def)
  ultimately show ?thesis by simp
qed

section \<open>The status merger\<close>

lemma py_compare_num:
  "num_val a = Some x \<Longrightarrow> num_val b = Some y \<Longrightarrow> py_compare c a b = Inr (cmp_rat c x y)"
proof -
  assume a: "num_val a = Some x" and b: "num_val b = Some y"
  have na: "is_number a" and xa: "num_x a = Some (XFin x)"
    using a by (cases a; auto elim: fin_val.elims)+
  have nb: "is_number b" and xb: "num_x b = Some (XFin y)"
    using b by (cases b; auto elim: fin_val.elims)+
  have "cmp_x c (XFin x) (XFin y) = cmp_rat c x y" by (cases c) auto
  moreover have "py_compare c a b
        = Inr (case (num_x a, num_x b) of (Some x, Some y) \<Rightarrow> cmp_x c x y | _ \<Rightarrow> False)"
    using na nb by (cases a; cases b) simp_all
  ultimately show ?thesis by (simp add: xa xb)
qed

lemma truthy_num: "num_val v = Some l \<Longrightarrow> truthy v = (l \<noteq> 0)"
  by (cases v) (auto split: if_splits elim: fin_val.elims)

lemma dict_item_update_other:
  "k' \<noteq> k \<Longrightarrow> dict_item (AList.update k v d) k' = dict_item d k'"
  by (simp add: dict_item_def update_conv')

lemma dict_get_update_same: "dict_get (AList.update k v d) k = v"
  by (simp add: dict_get_def update_conv')

lemma dict_get_update_other: "k' \<noteq> k \<Longrightarrow> dict_get (AList.update k v d) k' = dict_get d k'"
  by (simp add: dict_get_def update_conv')

lemma merge_one_wf:
  assumes wf: "wf_asset c" and lv: "level_values m"
  shows "merge_one m c = Inr (merged_record m c)"
proof -
  obtain i k where i: "map_of c ''id'' = Some i" and k: "py_key i = Inr k" and kn: "k \<noteq> KNaN"
    using wf by (auto simp: wf_asset_def asset_key_def split: option.splits sum.splits if_splits)
  obtain mv cap where mv: "map_of c ''max_volume'' = Some mv" and cap: "num_val mv = Some cap"
    and pos: "0 < cap"
    using wf by (auto simp: wf_asset_def capacity_def split: option.splits)
  have ak: "asset_key c = Some k" by (simp add: asset_key_def i k kn)
  have mg: "map_get m k = (case m k of None \<Rightarrow> JNull | Some v \<Rightarrow> v)"
    by (simp add: map_get_def kn)
  have cp: "capacity c = Some cap" by (simp add: capacity_def mv cap)
  have di: "dict_item c ''id'' = Inr i" by (simp add: dict_item_def i)
  have dm: "dict_item (AList.update ''current_level'' x c) ''max_volume'' = Inr mv" for x
    by (simp add: dict_item_def update_conv' mv)
  show ?thesis
  proof (cases "m k")
    case None
    then show ?thesis
      by (simp add: merge_one_def di k mg merged_record_def overflow_def
          current_level_def live_level_def ak)
  next
    case (Some v)
    show ?thesis
    proof (cases "v = JNull")
      case True
      then show ?thesis using Some
        by (simp add: merge_one_def di k mg merged_record_def overflow_def
            current_level_def live_level_def ak)
    next
      case False
      then obtain l where l: "num_val v = Some l"
        using lv Some by (auto simp: level_values_def)
      have ll: "live_level m c = Some l" by (simp add: live_level_def ak Some l)
      show ?thesis
      proof (cases "l = 0")
        case True
        then have "\<not> truthy v" using truthy_num [OF l] by simp
        moreover have "\<not> cap \<le> l" using True pos by simp
        ultimately show ?thesis using Some False
          by (simp add: merge_one_def di k mg merged_record_def overflow_def
              current_level_def ll cp ak)
      next
        case nz: False
        then have t: "truthy v" using truthy_num [OF l] by simp
        have c: "py_compare Ge v mv = Inr (cap \<le> l)"
          using py_compare_num [OF l cap, of Ge] by simp
        show ?thesis using Some False t
          by (simp add: merge_one_def di k mg merged_record_def overflow_def
              current_level_def ll cp ak dm c)
      qed
    qed
  qed
qed

lemma merge_all_wf:
  "\<forall>c \<in> set catalog. wf_asset c \<Longrightarrow> level_values m \<Longrightarrow>
   merge_all m catalog = Inr (map (merged_record m) catalog)"
  by (induction catalog) (simp_all add: merge_one_wf)

lemma merged_record_current: "dict_get (merged_record m c) ''current_level'' = current_level m c"
  by (simp add: merged_record_def dict_get_update_other dict_get_update_same)

lemma merged_record_anomaly: "dict_get (merged_record m c) ''anomaly'' = JBool (overflow m c)"
  by (simp add: merged_record_def dict_get_update_same)

lemma absent_level_zero:
  "level_values m \<Longrightarrow> live_level m c = None \<Longrightarrow> current_level m c = JInt 0 \<and> \<not> overflow m c"
proof -
  assume lv: "level_values m" and none: "live_level m c = None"
  have "current_level m c = JInt 0"
  proof (cases "asset_key c")
    case None
    then show ?thesis by (simp add: current_level_def)
  next
    case (Some k)
    show ?thesis
    proof (cases "m k")
      case None
      then show ?thesis using Some by (simp add: current_level_def)
    next
      case (Some v)
      then have "num_val v = None" using none \<open>asset_key c = Some k\<close>
        by (simp add: live_level_def)
      moreover have "v = JNull \<or> num_val v \<noteq> None"
        using lv Some unfolding level_values_def by blast
      ultimately have "v = JNull" by simp
      then show ?thesis using Some \<open>asset_key c = Some k\<close> by (simp add: current_level_def)
    qed
  qed
  then show ?thesis using none by (simp add: overflow_def)
qed

text \<open>
  A level that \<^verbatim>\<open>float\<close> rejects is kept as it is by the time series branch (line 137), and
  the comparison of line 187 then raises: the request ends in an unhandled TypeError.
\<close>

lemma text_level_reaches_merger:
  assumes "float_of_str rt ''abc'' = None"
  shows "get_cauldron_levels rt [[(''id'', JStr ''a''), (''max_volume'', JInt 100)]]
     (Replied 200 (Some (JList [JDict [(''cauldron_levels'', JDict [(''a'', JStr ''abc'')])]])))
     = Inl TypeError"
  using assms
  by (simp add: get_cauldron_levels_def normalize_levels_def unwrap_payload_def
      build_levels_map_def latest_levels_def coerce_items_def coerce_level_def
      merge_one_def dict_item_def map_get_def)

text \<open>
  Claim C3, as stated: the merger never raises, for every live level map. It raises for the
  map that holds the text \<^verbatim>\<open>abc\<close> for asset \<^verbatim>\<open>a\<close>.
\<close>

theorem merger_raises_on_text_level:
  "merge_all [KStr ''a'' \<mapsto> JStr ''abc''] [[(''id'', JStr ''a''), (''max_volume'', JInt 100)]]
   = Inl TypeError"
  by (simp add: merge_one_def dict_item_def map_get_def)

text \<open>
  Claim C3, amended. For a catalog whose assets have an id and a positive numeric capacity,
  and a live map whose values are numbers or null, the merger returns one merged record per
  catalog asset, in catalog order. An asset without a live level gets the current level 0
  and no overflow flag; the flag is set exactly when a live level is present and is at least
  the capacity.
\<close>

theorem status_merger_one_record_per_asset:
  assumes "\<forall>c \<in> set catalog. wf_asset c" and "level_values m"
  shows "merge_all m catalog = Inr (map (merged_record m) catalog)
       \<and> (\<forall>c \<in> set catalog.
            (live_level m c = None \<longrightarrow>
               dict_get (merged_record m c) ''current_level'' = JInt 0
               \<and> dict_get (merged_record m c) ''anomaly'' = JBool False)
          \<and> dict_get (merged_record m c) ''anomaly''
              = JBool (\<exists>l cap. live_level m c = Some l \<and> capacity c = Some cap \<and> cap \<le> l))"
proof -
  have "overflow m c = (\<exists>l cap. live_level m c = Some l \<and> capacity c = Some cap \<and> cap \<le> l)" for c
    by (auto simp: overflow_def split: option.splits)
  then show ?thesis
    using merge_all_wf [OF assms] absent_level_zero [OF assms(2)]
    by (simp add: merged_record_current merged_record_anomaly)
qed

theorem status_merger_one_record_per_asset_witness:
  "merge_all [KStr ''a'' \<mapsto> JFloat (Fin 120)]
     [[(''id'', JStr ''a''), (''max_volume'', JInt 100)],
      [(''id'', JStr ''b''), (''max_volume'', JInt 50)]]
   = Inr [[(''id'', JStr ''a''), (''max_volume'', JInt 100), (''current_level'', JFloat (Fin 120)),
           (''anomaly'', JBool True)],
          [(''id'', JStr ''b''), (''max_volume'', JInt 50), (''current_level'', JInt 0),
           (''anomaly'', JBool False)]]"
proof -
  have w: "\<forall>c \<in> set [[(''id'', JStr ''a''), (''max_volume'', JInt 100)],
      [(''id'', JStr ''b''), (''max_volume'', JInt 50)]]. wf_asset c"
    by (simp add: wf_asset_def asset_key_def capacity_def)
  have l: "level_values [KStr ''a'' \<mapsto> JFloat (Fin 120)]"
    by (simp add: level_values_def)
  show ?thesis
    using status_merger_one_record_per_asset [OF w l]
    by (simp add: merged_record_def overflow_def current_level_def live_level_def asset_key_def
        capacity_def)
qed

section \<open>The forecaster\<close>

text \<open>Rounding to a tenth gives the nearest multiple of a tenth.\<close>

lemma round_half_even_near: "\<bar>of_int (round_half_even x) - x\<bar> \<le> 1 / 2"
proof -
  have a: "of_int \<lfloor>x\<rfloor> \<le> x" and b: "x < of_int \<lfloor>x\<rfloor> + 1" by linarith+
  show ?thesis
    unfolding round_half_even_def Let_def using a b by (auto simp: abs_le_iff) 
qed

lemma round_tenth_nearest:
  "\<bar>round_tenth x - x\<bar> \<le> 1 / 20 \<and> (\<exists>n. round_tenth x = of_int n / 10)"
proof -
  have "\<bar>of_int (round_half_even (x * 10)) - x * 10\<bar> \<le> 1 / 2"
    by (rule round_half_even_near)
  then have "\<bar>round_tenth x - x\<bar> \<le> 1 / 20"
    unfolding round_tenth_def by (simp add: abs_le_iff field_simps)
  then show ?thesis unfolding round_tenth_def by blast
qed

text \<open>Some values of the division and of the rounding, computed on the doubles.\<close>

lemma round_to_double_10_3: "round_to_double (10 / 3) = 7505999378950827 / 2251799813685248"
  by (rule round_to_double_eval' [where e = 1 and m = 7505999378950827])
     (simp_all add: pow2_def)

lemma round_to_double_33_10: "round_to_double (33 / 10) = 3715469692580659 / 1125899906842624"
  by (rule round_to_double_eval' [where e = 1 and m = 7430939385161318])
     (simp_all add: pow2_def)

lemma round_to_double_7_20: "round_to_double (7 / 20) = 3152519739159347 / 9007199254740992"
  by (rule round_to_double_eval' [where e = "- 2" and m = 6305039478318694])
     (simp_all add: pow2_def)

lemma round_to_double_3_10: "round_to_double (3 / 10) = 5404319552844595 / 18014398509481984"
  by (rule round_to_double_eval' [where e = "- 2" and m = 5404319552844595])
     (simp_all add: pow2_def)

lemma div_10_3: "py_truediv (JInt 10) (JInt 3) = Inr (Fin (7505999378950827 / 2251799813685248))"
  by (simp add: py_truediv_def round_to_double_10_3 not_overflows_small)

lemma round1_10_3:
  "py_round1 (Fin (7505999378950827 / 2251799813685248))
   = Fin (3715469692580659 / 1125899906842624)"
proof -
  have t: "round_tenth (7505999378950827 / 2251799813685248) = 33 / 10"
    unfolding round_tenth_def by (subst round_half_even_eq [where m = 33]) simp_all
  show ?thesis
    by (simp add: py_round1_def to_double_def t round_to_double_33_10 not_overflows_small)
qed

lemma div_7_20: "py_truediv (JInt 7) (JInt 20) = Inr (Fin (3152519739159347 / 9007199254740992))"
  by (simp add: py_truediv_def round_to_double_7_20 not_overflows_small)

lemma round1_7_20:
  "py_round1 (Fin (3152519739159347 / 9007199254740992))
   = Fin (5404319552844595 / 18014398509481984)"
proof -
  have t: "round_tenth (3152519739159347 / 9007199254740992) = 3 / 10"
    unfolding round_tenth_def by (subst round_half_even_eq [where m = 3]) simp_all
  show ?thesis
    by (simp add: py_round1_def to_double_def t round_to_double_3_10 not_overflows_small)
qed

lemma div_50_2: "py_truediv (JInt 50) (JFloat (Fin 2)) = Inr (Fin 25)"
proof -
  have "round_to_double 25 = 25" using round_to_double_of_int [of 25] by simp
  then show ?thesis
    by (simp add: py_truediv_def int_to_float_exact [of 50, simplified] ebind_def fdiv_def
        to_double_def not_overflows_small)
qed

lemma round1_25: "py_round1 (Fin 25) = Fin 25"
proof -
  have t: "round_tenth 25 = 25"
    unfolding round_tenth_def using round_half_even_int [of 250] by simp
  have r: "round_to_double 25 = 25" using round_to_double_of_int [of 25] by simp
  show ?thesis by (simp add: py_round1_def to_double_def t r not_overflows_small)
qed

lemma forecast_one_wf:
  assumes "wf_status c" and "arithmetic_defined c"
  shows "forecast_one c
         = Inr (if below_capacity_and_filling c then Some (forecast_entry c) else None)"
proof -
  obtain d where c: "c = JDict d"
    using assms(1) by (cases c) (auto simp: wf_status_def field_def)
  obtain lv l where lv: "map_of d ''current_level'' = Some lv" "num_val lv = Some l"
    using assms(1) by (auto simp: wf_status_def field_num_def field_def c split: option.splits)
  obtain mv cap where mv: "map_of d ''max_volume'' = Some mv" "num_val mv = Some cap"
    using assms(1) by (auto simp: wf_status_def field_num_def field_def c split: option.splits)
  obtain fr rate where fr: "map_of d ''fill_rate_per_min'' = Some fr" "num_val fr = Some rate"
    using assms(1) by (auto simp: wf_status_def field_num_def field_def c split: option.splits)
  obtain i n where i: "map_of d ''id'' = Some i" and n: "map_of d ''name'' = Some n"
    using assms(1) by (auto simp: wf_status_def field_def c)
  have items: "py_item c ''fill_rate_per_min'' = Inr fr" "py_item c ''current_level'' = Inr lv"
    "py_item c ''max_volume'' = Inr mv" "py_item c ''id'' = Inr i" "py_item c ''name'' = Inr n"
    by (simp_all add: c dict_item_def lv mv fr i n)
  have cmp1: "py_compare Lt lv mv = Inr (l < cap)"
    using py_compare_num [OF lv(2) mv(2), of Lt] by simp
  have cmp2: "py_compare Gt fr (JInt 0) = Inr (0 < rate)"
    using py_compare_num [OF fr(2), of "JInt 0" 0 Gt] by simp
  have bc: "below_capacity c = (l < cap)"
    by (simp add: below_capacity_def field_num_def field_def c lv mv)
  have b: "below_capacity_and_filling c = (l < cap \<and> 0 < rate)"
    by (simp add: below_capacity_and_filling_def bc) (simp add: field_num_def field_def c fr)
  have lt: "liters_to_full c = (case py_sub mv lv of Inr d \<Rightarrow> Some d | Inl e \<Rightarrow> None)"
    by (simp add: liters_to_full_def field_def c lv mv)
  show ?thesis
  proof (cases "l < cap")
    case False
    then show ?thesis by (simp add: forecast_one_def ebind_def items cmp1 b del: py_compare.simps)
  next
    case True
    then have "liters_to_full c \<noteq> None" using assms(2) bc by (simp add: arithmetic_defined_def)
    then obtain dd where dd: "py_sub mv lv = Inr dd" and ltc: "liters_to_full c = Some dd"
      unfolding lt by (cases "py_sub mv lv") simp_all
    have mt: "minutes_to_full c
              = (case py_truediv dd fr of Inr q \<Rightarrow> Some (py_round1 q) | Inl e \<Rightarrow> None)"
      by (simp add: minutes_to_full_def ltc) (simp add: field_def c fr)
    show ?thesis
    proof (cases "0 < rate")
      case False
      then show ?thesis using True
        by (simp add: forecast_one_def ebind_def items cmp1 cmp2 dd b del: py_compare.simps)
    next
      case pos: True
      then have "minutes_to_full c \<noteq> None"
        using assms(2) True b by (simp add: arithmetic_defined_def)
      then obtain q where q: "py_truediv dd fr = Inr q" and mq: "minutes_to_full c = Some (py_round1 q)"
        unfolding mt by (cases "py_truediv dd fr") simp_all
      have e: "forecast_entry c = JDict [(''cauldron_id'', i), (''name'', n),
            (''time_to_full_min'', JFloat (py_round1 q))]"
        by (simp add: forecast_entry_def mq) (simp add: field_def c i n)
      show ?thesis using True pos
        by (simp add: forecast_one_def ebind_def items cmp1 cmp2 dd q b e del: py_compare.simps)
    qed
  qed
qed

lemma forecast_loop_wf:
  "\<forall>c \<in> set cs. wf_status c \<and> arithmetic_defined c \<Longrightarrow>
   forecast_loop cs = Inr (map forecast_entry (filter below_capacity_and_filling cs))"
  by (induction cs) (simp_all add: forecast_one_wf ebind_def)

lemma huge_int_pos: "0 < huge_int"
  by (simp add: huge_int_def)

lemma div_huge_1: "py_truediv (JInt huge_int) (JInt 1) = Inl OverflowError"
proof -
  have "2 ^ 1024 \<le> \<bar>huge_int\<bar>" by (simp add: huge_int_def)
  then have "(of_int (2 ^ 1024) :: rat) \<le> of_int \<bar>huge_int\<bar>" by (simp only: of_int_le_iff)
  then have "pow2 1024 \<le> \<bar>of_int huge_int :: rat\<bar>" by (simp add: pow2_def)
  then have "overflows (round_to_double (of_int huge_int))" by (rule round_to_double_overflow)
  then show ?thesis by (simp add: py_truediv_def)
qed

text \<open>
  Claim C4, as stated: for every list of merged status records the forecaster's output holds
  exactly the assets below capacity with a positive fill rate. For the record below, whose
  capacity is an \<^verbatim>\<open>int\<close> of 310 digits, the division of line 293 raises OverflowError
  outside any \<^verbatim>\<open>try\<close>, and there is no output.
\<close>

theorem forecaster_raises_on_huge_capacity:
  "forecast_loop
     [JDict [(''id'', JStr ''a''), (''name'', JStr ''A''), (''max_volume'', JInt huge_int),
             (''fill_rate_per_min'', JInt 1), (''current_level'', JInt 0)]]
   = Inl OverflowError"
proof -
  have "(0::rat) < of_int huge_int" using huge_int_pos by simp
  then have c: "py_compare Lt (JInt 0) (JInt huge_int) = Inr True" by simp
  have s: "py_sub (JInt huge_int) (JInt 0) = Inr (JInt huge_int)" by (simp add: py_sub_def)
  have g: "py_compare Gt (JInt 1) (JInt 0) = Inr True" by simp
  show ?thesis
    by (simp add: forecast_one_def ebind_def dict_item_def c s g div_huge_1
        del: py_compare.simps)
qed

text \<open>
  Claim C4, amended. For a list of merged status records on which the subtraction and the
  division do not overflow, the forecaster returns, in order, exactly the records whose
  current level is strictly below the capacity and whose fill rate is positive, each with
  minutes to full = Python's \<^verbatim>\<open>round((capacity - current level) / fill rate, 1)\<close>, the float
  quotient rounded to one decimal; the others are left out. The witness holds the examples
  of the claim: capacity 100, level 50 and rate 2.0 give 25.0, capacity 100, level 100 and
  rate 1 do not appear; capacity 10, level 0 and rate 3 give the double 3.3; capacity 7,
  level 0 and rate 20 give the double 0.3, the quotient being the double below 0.35.
\<close>

theorem forecaster_lists_assets_below_capacity:
  assumes "\<forall>c \<in> set cs. wf_status c \<and> arithmetic_defined c"
  shows "forecast_loop cs = Inr (map forecast_entry (filter below_capacity_and_filling cs))"
  using assms by (rule forecast_loop_wf)

theorem forecaster_lists_assets_below_capacity_witness:
  "forecast_loop
     [JDict [(''id'', JStr ''a''), (''name'', JStr ''A''), (''max_volume'', JInt 100),
             (''fill_rate_per_min'', JFloat (Fin 2)), (''current_level'', JInt 50)],
      JDict [(''id'', JStr ''b''), (''name'', JStr ''B''), (''max_volume'', JInt 100),
             (''fill_rate_per_min'', JInt 1), (''current_level'', JInt 100)],
      JDict [(''id'', JStr ''c''), (''name'', JStr ''C''), (''max_volume'', JInt 10),
             (''fill_rate_per_min'', JInt 3), (''current_level'', JInt 0)],
      JDict [(''id'', JStr ''d''), (''name'', JStr ''D''), (''max_volume'', JInt 7),
             (''fill_rate_per_min'', JInt 20), (''current_level'', JInt 0)]]
   = Inr [JDict [(''cauldron_id'', JStr ''a''), (''name'', JStr ''A''),
                 (''time_to_full_min'', JFloat (Fin 25))],
          JDict [(''cauldron_id'', JStr ''c''), (''name'', JStr ''C''),
                 (''time_to_full_min'', JFloat (Fin (3715469692580659 / 1125899906842624)))],
          JDict [(''cauldron_id'', JStr ''d''), (''name'', JStr ''D''),
                 (''time_to_full_min'', JFloat (Fin (5404319552844595 / 18014398509481984)))]]"
proof -
  let ?a = "JDict [(''id'', JStr ''a''), (''name'', JStr ''A''), (''max_volume'', JInt 100),
             (''fill_rate_per_min'', JFloat (Fin 2)), (''current_level'', JInt 50)]"
  let ?b = "JDict [(''id'', JStr ''b''), (''name'', JStr ''B''), (''max_volume'', JInt 100),
             (''fill_rate_per_min'', JInt 1), (''current_level'', JInt 100)]"
  let ?c = "JDict [(''id'', JStr ''c''), (''name'', JStr ''C''), (''max_volume'', JInt 10),
             (''fill_rate_per_min'', JInt 3), (''current_level'', JInt 0)]"
  let ?d = "JDict [(''id'', JStr ''d''), (''name'', JStr ''D''), (''max_volume'', JInt 7),
             (''fill_rate_per_min'', JInt 20), (''current_level'', JInt 0)]"
  have la: "liters_to_full ?a = Some (JInt 50)" and lb: "liters_to_full ?b = Some (JInt 0)"
    and lc: "liters_to_full ?c = Some (JInt 10)" and ld: "liters_to_full ?d = Some (JInt 7)"
    by (simp_all add: liters_to_full_def field_def py_sub_def)
  have ma: "minutes_to_full ?a = Some (Fin 25)"
    by (simp add: minutes_to_full_def la) (simp add: field_def div_50_2 round1_25)
  have mc: "minutes_to_full ?c = Some (Fin (3715469692580659 / 1125899906842624))"
    by (simp add: minutes_to_full_def lc) (simp add: field_def div_10_3 round1_10_3)
  have md: "minutes_to_full ?d = Some (Fin (5404319552844595 / 18014398509481984))"
    by (simp add: minutes_to_full_def ld) (simp add: field_def div_7_20 round1_7_20)
  have ba: "below_capacity_and_filling ?a" and bb: "\<not> below_capacity_and_filling ?b"
    and bc: "below_capacity_and_filling ?c" and nb: "\<not> below_capacity ?b"
    and bd: "below_capacity_and_filling ?d"
    by (simp_all add: below_capacity_and_filling_def below_capacity_def field_num_def field_def)
  have w: "\<forall>c \<in> set [?a, ?b, ?c, ?d]. wf_status c \<and> arithmetic_defined c"
    by (simp add: arithmetic_defined_def la lc ld ma mc md bb nb)
       (simp add: wf_status_def field_num_def field_def)
  have ea: "forecast_entry ?a = JDict [(''cauldron_id'', JStr ''a''), (''name'', JStr ''A''),
                 (''time_to_full_min'', JFloat (Fin 25))]"
    by (simp add: forecast_entry_def ma) (simp add: field_def)
  have ec: "forecast_entry ?c = JDict [(''cauldron_id'', JStr ''c''), (''name'', JStr ''C''),
                 (''time_to_full_min'', JFloat (Fin (3715469692580659 / 1125899906842624)))]"
    by (simp add: forecast_entry_def mc) (simp add: field_def)
  have ed: "forecast_entry ?d = JDict [(''cauldron_id'', JStr ''d''), (''name'', JStr ''D''),
                 (''time_to_full_min'', JFloat (Fin (5404319552844595 / 18014398509481984)))]"
    by (simp add: forecast_entry_def md) (simp add: field_def)
  show ?thesis
    using forecaster_lists_assets_below_capacity [OF w]
    by (simp add: ba bb bc bd ea ec ed)
qed

section \<open>Dispatch\<close>

lemma find_cauldron_find:
  "\<forall>c \<in> set catalog. has_id_and_name c \<Longrightarrow>
   find_cauldron cauldron_id catalog = Inr (find (matches_id cauldron_id) catalog)"
  by (induction catalog)
     (auto simp: ebind_def dict_item_def dict_get_def matches_id_def has_id_and_name_def)

lemma dispatch_unknown:
  assumes "\<forall>c \<in> set (cauldrons (static st)). has_id_and_name c"
      and "\<not> known_asset (dict_get d ''cauldron_id'') (cauldrons (static st))"
  shows "dispatch_courier rt st (JDict d) = Inr (invalid_cauldron, st)"
proof -
  have "find (matches_id (dict_get d ''cauldron_id'')) (cauldrons (static st)) = None"
    using assms(2) by (simp add: known_asset_def find_None_iff list_ex_iff)
  then show ?thesis
    by (simp add: dispatch_courier_def ebind_def find_cauldron_find [OF assms(1)])
qed

lemma dispatch_known:
  assumes "\<forall>c \<in> set (cauldrons (static st)). has_id_and_name c"
      and "known_asset (dict_get d ''cauldron_id'') (cauldrons (static st))"
  shows "\<exists>c name. c \<in> set (cauldrons (static st)) \<and> matches_id (dict_get d ''cauldron_id'') c
           \<and> map_of c ''name'' = Some name
           \<and> dispatch_courier rt st (JDict d)
             = Inr (Response
                      (JDict [(''status'', JStr ''success''),
                              (''message'',
                               JStr (''Courier witch dispatched to '' @ py_str rt name
                                     @ ''. (Simulation)''))]),
                    st\<lparr>stdout :=
                         stdout st @ [''SIMULATED DISPATCH: Courier sent to '' @ py_str rt name]\<rparr>)"
proof -
  have "find (matches_id (dict_get d ''cauldron_id'')) (cauldrons (static st)) \<noteq> None"
    using assms(2) by (auto simp: known_asset_def list_ex_iff find_None_iff)
  then obtain c where
    f: "find (matches_id (dict_get d ''cauldron_id'')) (cauldrons (static st)) = Some c"
    by blast
  then have cin: "c \<in> set (cauldrons (static st))" and m: "matches_id (dict_get d ''cauldron_id'') c"
    by (auto simp: find_Some_iff)
  have "has_id_and_name c" using assms(1) cin by blast
  then obtain name where n: "map_of c ''name'' = Some name"
    by (auto simp: has_id_and_name_def)
  have ne: "c \<noteq> []" using n by auto
  have "dispatch_courier rt st (JDict d)
             = Inr (Response
                      (JDict [(''status'', JStr ''success''),
                              (''message'',
                               JStr (''Courier witch dispatched to '' @ py_str rt name
                                     @ ''. (Simulation)''))]),
                    st\<lparr>stdout :=
                         stdout st @ [''SIMULATED DISPATCH: Courier sent to '' @ py_str rt name]\<rparr>)"
    by (simp add: dispatch_courier_def ebind_def find_cauldron_find [OF assms(1)] f ne
        dict_item_def n)
  then show ?thesis using cin m n by blast
qed

text \<open>
  Claim C6. A dispatch request whose asset id is not in the catalog is answered with status
  code 400 and the status \<^verbatim>\<open>error\<close>, and the process state (catalog and output) is the one
  before the request; a request for a known asset id is answered with the status
  \<^verbatim>\<open>success\<close>, and the catalog is unchanged.
\<close>

theorem dispatch_unknown_asset_is_client_error:
  assumes "\<forall>c \<in> set (cauldrons (static st)). has_id_and_name c"
  shows "(\<not> known_asset (dict_get d ''cauldron_id'') (cauldrons (static st)) \<longrightarrow>
            (\<exists>body. dispatch_courier rt st (JDict d) = Inr (ResponseWithStatus body 400, st)
                    \<and> py_get body ''status'' = Inr (JStr ''error'')))
       \<and> (known_asset (dict_get d ''cauldron_id'') (cauldrons (static st)) \<longrightarrow>
            (\<exists>body st'. dispatch_courier rt st (JDict d) = Inr (Response body, st')
                    \<and> py_get body ''status'' = Inr (JStr ''success'')
                    \<and> static st' = static st))"
proof (intro conjI impI)
  assume "\<not> known_asset (dict_get d ''cauldron_id'') (cauldrons (static st))"
  from dispatch_unknown [OF assms this]
  show "\<exists>body. dispatch_courier rt st (JDict d) = Inr (ResponseWithStatus body 400, st)
                    \<and> py_get body ''status'' = Inr (JStr ''error'')"
    by (simp add: invalid_cauldron_def dict_get_def)
next
  assume "known_asset (dict_get d ''cauldron_id'') (cauldrons (static st))"
  from dispatch_known [OF assms this, of rt]
  show "\<exists>body st'. dispatch_courier rt st (JDict d) = Inr (Response body, st')
                    \<and> py_get body ''status'' = Inr (JStr ''success'')
                    \<and> static st' = static st"
    by (auto simp: dict_get_def)
qed

theorem dispatch_unknown_asset_is_client_error_witness:
  "dispatch_courier sample_rt sample_state (JDict [(''cauldron_id'', JStr ''nowhere'')])
     = Inr (ResponseWithStatus
              (JDict [(''status'', JStr ''error''), (''message'', JStr ''Invalid cauldron ID.'')])
              400, sample_state)
   \<and> dispatch_courier sample_rt sample_state (JDict [(''cauldron_id'', JStr ''cauldron_001'')])
     = Inr (Response
              (JDict [(''status'', JStr ''success''),
                      (''message'', JStr ''Courier witch dispatched to Alpha Pot. (Simulation)'')]),
            sample_state\<lparr>stdout := [''SIMULATED DISPATCH: Courier sent to Alpha Pot'']\<rparr>)"
proof -
  have w: "\<forall>c \<in> set (cauldrons (static sample_state)). has_id_and_name c"
    by (simp add: sample_state_def has_id_and_name_def)
  have u: "\<not> known_asset (dict_get [(''cauldron_id'', JStr ''nowhere'')] ''cauldron_id'')
             (cauldrons (static sample_state))"
    by (simp add: known_asset_def matches_id_def sample_state_def dict_get_def)
  have k: "known_asset (dict_get [(''cauldron_id'', JStr ''cauldron_001'')] ''cauldron_id'')
             (cauldrons (static sample_state))"
    by (simp add: known_asset_def matches_id_def sample_state_def dict_get_def)
  from dispatch_unknown_asset_is_client_error [OF w, of "[(''cauldron_id'', JStr ''nowhere'')]" sample_rt] u
  have a: "\<exists>body. dispatch_courier sample_rt sample_state (JDict [(''cauldron_id'', JStr ''nowhere'')])
            = Inr (ResponseWithStatus body 400, sample_state)" by blast
  from dispatch_unknown_asset_is_client_error [OF w, of "[(''cauldron_id'', JStr ''cauldron_001'')]" sample_rt] k
  have b: "\<exists>body st'. dispatch_courier sample_rt sample_state (JDict [(''cauldron_id'', JStr ''cauldron_001'')])
            = Inr (Response body, st')" by blast
  have a': "dispatch_courier sample_rt sample_state (JDict [(''cauldron_id'', JStr ''nowhere'')])
     = Inr (ResponseWithStatus
              (JDict [(''status'', JStr ''error''), (''message'', JStr ''Invalid cauldron ID.'')])
              400, sample_state)"
    using a by (simp add: dispatch_courier_def ebind_def sample_state_def dict_get_def
        dict_item_def invalid_cauldron_def)
  have b': "dispatch_courier sample_rt sample_state (JDict [(''cauldron_id'', JStr ''cauldron_001'')])
     = Inr (Response
              (JDict [(''status'', JStr ''success''),
                      (''message'', JStr ''Courier witch dispatched to Alpha Pot. (Simulation)'')]),
            sample_state\<lparr>stdout := [''SIMULATED DISPATCH: Courier sent to Alpha Pot'']\<rparr>)"
    using b by (simp add: dispatch_courier_def ebind_def sample_state_def dict_get_def
        dict_item_def py_str_def)
  show ?thesis using a' b' by simp
qed

section \<open>Upstream failures\<close>






lemma forecast_returns_response:
  "forecast_fill_times rt catalog up = Inr r \<Longrightarrow> \<exists>body. r = Response body"
  by (auto simp: forecast_fill_times_def ebind_def split: sum.splits view_result.splits)





section \<open>The status operation\<close>

lemma percent_full_spec: "percent_full rt c = percent_of rt (capacity_or_1 c) (level_or_0 c)"
proof -
  have a: "py_or (dict_get c ''max_volume'') (JInt 1) = capacity_or_1 c"
    by (simp add: py_or_def dict_get_def capacity_or_1_def split: option.splits)
  have b: "py_or (dict_get c ''current_level'') (JInt 0) = level_or_0 c"
    by (simp add: py_or_def dict_get_def level_or_0_def split: option.splits)
  show ?thesis by (simp add: percent_full_def a b percent_of_def)
qed

lemma no_nan_forecast: "\<not> has_forecast fs KNaN"
  by (auto simp: has_forecast_def list_ex_iff entry_key_def split: option.splits)

lemma forecast_map_loop_entries:
  "\<forall>f \<in> set fs. is_forecast_entry f \<Longrightarrow>
   \<exists>fm. forecast_map_loop fs m = Inr fm
      \<and> (\<forall>k. (fm k = None) = (m k = None \<and> \<not> has_forecast fs k))
      \<and> (\<forall>k f. fm k = Some f \<longrightarrow> f \<in> set fs \<or> m k = Some f)"
proof (induction fs arbitrary: m)
  case Nil
  then show ?case by (simp add: has_forecast_def)
next
  case (Cons f fs)
  from Cons.prems have e: "is_forecast_entry f" and rest: "\<forall>f \<in> set fs. is_forecast_entry f"
    by simp_all
  from e obtain d k where f: "f = JDict d" and k: "py_key (dict_get d ''cauldron_id'') = Inr k"
    by (cases f) (auto simp: is_forecast_entry_def entry_hash_def split: sum.splits)
  have ek: "entry_key f = (if k = KNaN then None else Some k)"
    by (simp add: entry_key_def entry_hash_def f k)
  have step: "forecast_map_loop (f # fs) m = forecast_map_loop fs (map_put m k f)"
    by (simp add: f k ebind_def)
  from Cons.IH [OF rest, of "map_put m k f"] obtain fm where
    fm: "forecast_map_loop fs (map_put m k f) = Inr fm"
    and none: "\<forall>k'. (fm k' = None) = ((map_put m k f) k' = None \<and> \<not> has_forecast fs k')"
    and some: "\<forall>k' g. fm k' = Some g \<longrightarrow> g \<in> set fs \<or> (map_put m k f) k' = Some g"
    by (elim exE conjE)
  have n2: "(fm k' = None) = (m k' = None \<and> \<not> has_forecast (f # fs) k')" for k'
    using none [rule_format, of k'] ek by (auto simp: has_forecast_def map_put_def)
  have s2: "fm k' = Some g \<Longrightarrow> g \<in> set (f # fs) \<or> m k' = Some g" for k' g
    using some [rule_format, of k' g] by (auto simp: map_put_def split: if_splits)
  show ?case
    unfolding step
  proof (intro exI conjI allI impI)
    show "forecast_map_loop fs (map_put m k f) = Inr fm" by (rule fm)
    show "(fm k' = None) = (m k' = None \<and> \<not> has_forecast (f # fs) k')" for k' by (rule n2)
    show "fm k' = Some g \<Longrightarrow> g \<in> set (f # fs) \<or> m k' = Some g" for k' g by (rule s2)
  qed
qed

lemma forecast_map_entries:
  assumes "\<forall>f \<in> set fs. is_forecast_entry f"
  shows "\<exists>fm. forecast_map (JList fs) = Inr fm
      \<and> (\<forall>k. (fm k = None) = (\<not> has_forecast fs k))
      \<and> (\<forall>k f. fm k = Some f \<longrightarrow> is_forecast_entry f)"
proof -
  have it: "py_iter (py_or (JList fs) (JList [])) = Inr fs"
    by (simp add: py_or_def)
  from forecast_map_loop_entries [OF assms, of Map.empty]
  have "\<exists>fm. forecast_map_loop fs Map.empty = Inr fm
      \<and> (\<forall>k. (fm k = None) = (\<not> has_forecast fs k))
      \<and> (\<forall>k f. fm k = Some f \<longrightarrow> f \<in> set fs)"
    by simp
  then obtain fm where
    l: "forecast_map_loop fs Map.empty = Inr fm"
    and n: "\<forall>k. (fm k = None) = (\<not> has_forecast fs k)"
    and s: "\<forall>k f. fm k = Some f \<longrightarrow> f \<in> set fs"
    by (elim exE conjE)
  have 1: "forecast_map (JList fs) = Inr fm"
    unfolding forecast_map_def it by (simp add: ebind_def l)
  have 2: "\<forall>k. (fm k = None) = (\<not> has_forecast fs k)"
    using n by simp
  have 3: "\<forall>k f. fm k = Some f \<longrightarrow> is_forecast_entry f"
  proof (intro allI impI)
    fix k f assume "fm k = Some f"
    then have "f \<in> set fs" using s by simp
    then show "is_forecast_entry f" using assms by blast
  qed
  show ?thesis
  proof (intro exI conjI)
    show "forecast_map (JList fs) = Inr fm" by (rule 1)
    show "\<forall>k. (fm k = None) = (\<not> has_forecast fs k)" by (rule 2)
    show "\<forall>k f. fm k = Some f \<longrightarrow> is_forecast_entry f" by (rule 3)
  qed
qed

lemma entry_time_get:
  "is_forecast_entry f \<Longrightarrow> truthy f \<and> (\<exists>t. py_get f ''time_to_full_min'' = Inr (JFloat t))"
proof -
  assume e: "is_forecast_entry f"
  then obtain d where f: "f = JDict d"
    by (cases f) (simp_all add: is_forecast_entry_def entry_time_def)
  have "entry_time (JDict d) \<noteq> None" using e f by (simp add: is_forecast_entry_def)
  then obtain v where v: "map_of d ''time_to_full_min'' = Some v"
    by (cases "map_of d ''time_to_full_min''") (simp_all add: entry_time_def)
  have "entry_time (JDict d) \<noteq> None" by fact
  then obtain t where t: "v = JFloat t"
    using v by (cases v) (simp_all add: entry_time_def)
  have "d \<noteq> []" using v by auto
  then show ?thesis using v t by (simp add: f dict_get_def)
qed

lemma status_one_unfold:
  "py_key (dict_get c ''id'') = Inr k \<Longrightarrow>
   status_one rt fm (JDict c) =
     (case (if truthy (map_get fm k) then py_get (map_get fm k) ''time_to_full_min''
            else Inr JNull) of
        Inl e \<Rightarrow> Inl e
      | Inr t \<Rightarrow>
          Inr (JDict (AList.update ''time_to_full_min'' t
                 (AList.update ''percent_full'' (JFloat (percent_full rt c)) c))))"
  by (simp add: ebind_def Let_def)

lemma status_one_result:
  assumes fm: "\<forall>k f. fm k = Some f \<longrightarrow> is_forecast_entry f"
      and k: "py_key (dict_get c ''id'') = Inr k"
  shows "\<exists>t. status_one rt fm (JDict c)
             = Inr (JDict (AList.update ''time_to_full_min'' t
                      (AList.update ''percent_full'' (JFloat (percent_full rt c)) c)))
           \<and> (t = JNull) = (k = KNaN \<or> fm k = None)"
proof (cases "k = KNaN \<or> fm k = None")
  case True
  then have g: "map_get fm k = JNull" by (auto simp: map_get_def)
  have "status_one rt fm (JDict c)
             = Inr (JDict (AList.update ''time_to_full_min'' JNull
                      (AList.update ''percent_full'' (JFloat (percent_full rt c)) c)))"
    unfolding status_one_unfold [OF k] g by simp
  then show ?thesis using True by (intro exI [of _ JNull]) simp
next
  case False
  then obtain f where Some: "fm k = Some f" and kn: "k \<noteq> KNaN" by auto
  then have g: "map_get fm k = f" by (simp add: map_get_def)
  have "is_forecast_entry f" using fm Some by blast
  from entry_time_get [OF this] obtain t where
    t: "truthy f" "py_get f ''time_to_full_min'' = Inr (JFloat t)"
    by blast
  have "status_one rt fm (JDict c)
             = Inr (JDict (AList.update ''time_to_full_min'' (JFloat t)
                      (AList.update ''percent_full'' (JFloat (percent_full rt c)) c)))"
    unfolding status_one_unfold [OF k] g using t by simp
  moreover have "(JFloat t = JNull) = (k = KNaN \<or> fm k = None)" using Some kn by simp
  ultimately show ?thesis by (intro exI [of _ "JFloat t"]) simp
qed

text \<open>
  Claim C10. For a merged record (a dict whose id is hashable) and the forecast list of the
  forecaster, the loop body of the status operation raises nothing and returns the record
  extended with \<^verbatim>\<open>percent_full\<close>, computed with a missing or zero capacity replaced by 1 and
  a missing level by 0 and equal to 0.0 when the conversion or the division raises, and with
  \<^verbatim>\<open>time_to_full_min\<close>, which is null exactly when the asset has no forecast entry.
\<close>

theorem status_percent_and_time_to_full:
  assumes "\<forall>f \<in> set fs. is_forecast_entry f"
      and "py_key (dict_get c ''id'') = Inr k"
  shows "\<exists>fm t. forecast_map (JList fs) = Inr fm
           \<and> status_one rt fm (JDict c)
             = Inr (JDict (AList.update ''time_to_full_min'' t
                      (AList.update ''percent_full''
                         (JFloat (percent_of rt (capacity_or_1 c) (level_or_0 c))) c)))
           \<and> (t = JNull) = (\<not> has_forecast fs k)"
proof -
  from forecast_map_entries [OF assms(1)] obtain fm where
    m: "forecast_map (JList fs) = Inr fm"
    and n: "\<forall>k. (fm k = None) = (\<not> has_forecast fs k)"
    and e: "\<forall>k f. fm k = Some f \<longrightarrow> is_forecast_entry f"
    by (elim exE conjE)
  from status_one_result [OF e assms(2), of rt] obtain t where
    s: "status_one rt fm (JDict c)
             = Inr (JDict (AList.update ''time_to_full_min'' t
                      (AList.update ''percent_full'' (JFloat (percent_full rt c)) c)))"
    and t: "(t = JNull) = (k = KNaN \<or> fm k = None)"
    by (elim exE conjE)
  have h: "(t = JNull) = (\<not> has_forecast fs k)"
    using t n no_nan_forecast [of fs] by (cases "k = KNaN") simp_all
  have s': "status_one rt fm (JDict c)
             = Inr (JDict (AList.update ''time_to_full_min'' t
                      (AList.update ''percent_full''
                         (JFloat (percent_of rt (capacity_or_1 c) (level_or_0 c))) c)))"
    using s by (simp only: percent_full_spec)
  show ?thesis
  proof (intro exI conjI)
    show "forecast_map (JList fs) = Inr fm" by (rule m)
    show "status_one rt fm (JDict c)
             = Inr (JDict (AList.update ''time_to_full_min'' t
                      (AList.update ''percent_full''
                         (JFloat (percent_of rt (capacity_or_1 c) (level_or_0 c))) c)))"
      by (rule s')
    show "(t = JNull) = (\<not> has_forecast fs k)" by (rule h)
  qed
qed

text \<open>Some percentages, computed on the doubles.\<close>

lemma percent_50_of_100: "percent_of rt (JInt 100) (JInt 50) = Fin 50"
proof -
  have h: "round_to_double (1 / 2) = 1 / 2"
    by (rule round_to_double_eval' [where e = "- 1" and m = 4503599627370496])
       (simp_all add: pow2_def)
  have d: "py_truediv (JInt 50) (JFloat (Fin 100)) = Inr (Fin (1 / 2))"
    by (simp add: py_truediv_def int_to_float_exact [of 50, simplified] ebind_def fdiv_def
        to_double_def h not_overflows_small)
  have r: "round_to_double 50 = 50" using round_to_double_of_int [of 50] by simp
  have m: "fmul (Fin (1 / 2)) (Fin 100) = Fin 50"
    by (simp add: fmul_def to_double_def r not_overflows_small)
  have t: "round_tenth 50 = 50"
    unfolding round_tenth_def using round_half_even_int [of 500] by simp
  have p: "py_round1 (Fin 50) = Fin 50"
    by (simp add: py_round1_def to_double_def t r not_overflows_small)
  show ?thesis
    by (simp add: percent_of_def int_to_float_exact [of 100, simplified] d m p)
qed

lemma percent_1_of_2000:
  "percent_of rt (JInt 2000) (JFloat (Fin 1)) = Fin (3602879701896397 / 36028797018963968)"
proof -
  have q: "round_to_double (1 / 2000) = 1152921504606847 / 2305843009213693952"
    by (rule round_to_double_eval' [where e = "- 11" and m = 4611686018427388])
       (simp_all add: pow2_def)
  have d: "py_truediv (JFloat (Fin 1)) (JFloat (Fin 2000))
           = Inr (Fin (1152921504606847 / 2305843009213693952))"
    by (simp add: py_truediv_def ebind_def fdiv_def to_double_def q not_overflows_small)
  have h: "round_to_double (1152921504606847 / 2305843009213693952 * 100)
           = 3602879701896397 / 72057594037927936"
    by (rule round_to_double_eval' [where e = "- 5" and m = 7205759403792794])
       (simp_all add: pow2_def)
  have m: "fmul (Fin (1152921504606847 / 2305843009213693952)) (Fin 100)
           = Fin (3602879701896397 / 72057594037927936)"
    using h by (simp add: fmul_def to_double_def not_overflows_small)
  have t: "round_tenth (3602879701896397 / 72057594037927936) = 1 / 10"
    unfolding round_tenth_def by (subst round_half_even_eq [where m = 1]) simp_all
  have r: "round_to_double (1 / 10) = 3602879701896397 / 36028797018963968"
    by (rule round_to_double_eval' [where e = "- 4" and m = 7205759403792794])
       (simp_all add: pow2_def)
  have p: "py_round1 (Fin (3602879701896397 / 72057594037927936))
           = Fin (3602879701896397 / 36028797018963968)"
    by (simp add: py_round1_def to_double_def t r not_overflows_small)
  show ?thesis
    by (simp add: percent_of_def int_to_float_exact [of 2000, simplified] d m p)
qed

lemma percent_0_of_1: "percent_of rt (JInt 1) (JInt 0) = Fin 0"
proof -
  have d: "py_truediv (JInt 0) (JFloat (Fin 1)) = Inr (Fin 0)"
    by (simp add: py_truediv_def int_to_float_exact [of 0, simplified] ebind_def fdiv_def
        to_double_def round_to_double_def overflows_def zero_of_def pow2_def)
  have m: "fmul (Fin 0) (Fin 100) = Fin 0"
    by (simp add: fmul_def to_double_def round_to_double_def overflows_def zero_of_def pow2_def)
  have p: "py_round1 (Fin 0) = Fin 0"
    by (simp add: py_round1_def to_double_def round_tenth_def round_half_even_def
        round_to_double_def overflows_def zero_of_def pow2_def)
  show ?thesis
    by (simp add: percent_of_def int_to_float_exact [of 1, simplified] d m p)
qed

lemma percent_huge_level: "percent_of rt (JInt 100) (JInt huge_int) = Fin 0"
  by (simp add: percent_of_def int_to_float_exact [of 100, simplified] py_truediv_def
      ebind_def huge_int_overflows)


theorem status_percent_and_time_to_full_witness:
  "\<exists>fm t. forecast_map (JList [JDict [(''cauldron_id'', JStr ''a''), (''name'', JStr ''A''),
                                      (''time_to_full_min'', JFloat (Fin 25))]]) = Inr fm
     \<and> status_one sample_rt fm
          (JDict [(''id'', JStr ''a''), (''max_volume'', JInt 100), (''current_level'', JInt 50)])
        = Inr (JDict [(''id'', JStr ''a''), (''max_volume'', JInt 100),
                      (''current_level'', JInt 50), (''percent_full'', JFloat (Fin 50)),
                      (''time_to_full_min'', t)])
     \<and> t \<noteq> JNull
     \<and> status_one sample_rt fm (JDict [(''id'', JStr ''b''), (''max_volume'', JInt 0)])
        = Inr (JDict [(''id'', JStr ''b''), (''max_volume'', JInt 0),
                      (''percent_full'', JFloat (Fin 0)), (''time_to_full_min'', JNull)])
     \<and> status_one sample_rt fm
          (JDict [(''id'', JStr ''c''), (''max_volume'', JInt 2000),
                  (''current_level'', JFloat (Fin 1))])
        = Inr (JDict [(''id'', JStr ''c''), (''max_volume'', JInt 2000),
                      (''current_level'', JFloat (Fin 1)),
                      (''percent_full'', JFloat (Fin (3602879701896397 / 36028797018963968))),
                      (''time_to_full_min'', JNull)])
     \<and> status_one sample_rt fm
          (JDict [(''id'', JStr ''d''), (''max_volume'', JInt 100),
                  (''current_level'', JInt huge_int)])
        = Inr (JDict [(''id'', JStr ''d''), (''max_volume'', JInt 100),
                      (''current_level'', JInt huge_int),
                      (''percent_full'', JFloat (Fin 0)), (''time_to_full_min'', JNull)])"
proof -
  let ?fs = "[JDict [(''cauldron_id'', JStr ''a''), (''name'', JStr ''A''),
                     (''time_to_full_min'', JFloat (Fin 25))]]"
  let ?a = "[(''id'', JStr ''a''), (''max_volume'', JInt 100), (''current_level'', JInt 50)]"
  let ?b = "[(''id'', JStr ''b''), (''max_volume'', JInt 0)]"
  let ?c = "[(''id'', JStr ''c''), (''max_volume'', JInt 2000),
             (''current_level'', JFloat (Fin 1))]"
  let ?d = "[(''id'', JStr ''d''), (''max_volume'', JInt 100),
             (''current_level'', JInt huge_int)]"
  have w: "\<forall>f \<in> set ?fs. is_forecast_entry f"
    by (simp add: is_forecast_entry_def entry_hash_def entry_time_def dict_get_def)
  have ka: "py_key (dict_get ?a ''id'') = Inr (KStr ''a'')"
    and kb: "py_key (dict_get ?b ''id'') = Inr (KStr ''b'')"
    and kc: "py_key (dict_get ?c ''id'') = Inr (KStr ''c'')"
    and kd: "py_key (dict_get ?d ''id'') = Inr (KStr ''d'')"
    by (simp_all add: dict_get_def)
  have hz: "huge_int \<noteq> 0" using huge_int_pos by simp
  have pa: "percent_of sample_rt (capacity_or_1 ?a) (level_or_0 ?a) = Fin 50"
    by (simp add: capacity_or_1_def level_or_0_def percent_50_of_100)
  have pb: "percent_of sample_rt (capacity_or_1 ?b) (level_or_0 ?b) = Fin 0"
    by (simp add: capacity_or_1_def level_or_0_def percent_0_of_1)
  have pc: "percent_of sample_rt (capacity_or_1 ?c) (level_or_0 ?c)
            = Fin (3602879701896397 / 36028797018963968)"
    by (simp add: capacity_or_1_def level_or_0_def percent_1_of_2000)
  have pd: "percent_of sample_rt (capacity_or_1 ?d) (level_or_0 ?d) = Fin 0"
    by (simp add: capacity_or_1_def level_or_0_def percent_huge_level hz)
  have ha: "has_forecast ?fs (KStr ''a'')"
    and hb: "\<not> has_forecast ?fs (KStr ''b'')"
    and hc: "\<not> has_forecast ?fs (KStr ''c'')"
    and hd: "\<not> has_forecast ?fs (KStr ''d'')"
    by (simp_all add: has_forecast_def entry_key_def entry_hash_def dict_get_def)
  from status_percent_and_time_to_full [OF w ka, of sample_rt] obtain fm t where
    a1: "forecast_map (JList ?fs) = Inr fm"
    and a2: "status_one sample_rt fm (JDict ?a)
          = Inr (JDict (AList.update ''time_to_full_min'' t
                   (AList.update ''percent_full'' (JFloat (Fin 50)) ?a)))"
    and a3: "(t = JNull) = (\<not> has_forecast ?fs (KStr ''a''))"
    unfolding pa by (elim exE conjE)
  from status_percent_and_time_to_full [OF w kb, of sample_rt] obtain fmb tb where
    b1: "forecast_map (JList ?fs) = Inr fmb"
    and b2: "status_one sample_rt fmb (JDict ?b)
          = Inr (JDict (AList.update ''time_to_full_min'' tb
                   (AList.update ''percent_full'' (JFloat (Fin 0)) ?b)))"
    and b3: "(tb = JNull) = (\<not> has_forecast ?fs (KStr ''b''))"
    unfolding pb by (elim exE conjE)
  from status_percent_and_time_to_full [OF w kc, of sample_rt] obtain fmc tc where
    c1: "forecast_map (JList ?fs) = Inr fmc"
    and c2: "status_one sample_rt fmc (JDict ?c)
          = Inr (JDict (AList.update ''time_to_full_min'' tc
                   (AList.update ''percent_full''
                      (JFloat (Fin (3602879701896397 / 36028797018963968))) ?c)))"
    and c3: "(tc = JNull) = (\<not> has_forecast ?fs (KStr ''c''))"
    unfolding pc by (elim exE conjE)
  from status_percent_and_time_to_full [OF w kd, of sample_rt] obtain fmd td where
    d1: "forecast_map (JList ?fs) = Inr fmd"
    and d2: "status_one sample_rt fmd (JDict ?d)
          = Inr (JDict (AList.update ''time_to_full_min'' td
                   (AList.update ''percent_full'' (JFloat (Fin 0)) ?d)))"
    and d3: "(td = JNull) = (\<not> has_forecast ?fs (KStr ''d''))"
    unfolding pd by (elim exE conjE)
  have fb: "fmb = fm" and fc: "fmc = fm" and fd: "fmd = fm"
    using a1 b1 c1 d1 by simp_all
  have t: "t \<noteq> JNull" using a3 ha by simp
  have tb: "tb = JNull" using b3 hb by simp
  have tc: "tc = JNull" using c3 hc by simp
  have td: "td = JNull" using d3 hd by simp
  show ?thesis
  proof (intro exI conjI)
    show "forecast_map (JList ?fs) = Inr fm" by (rule a1)
    show "status_one sample_rt fm (JDict ?a)
          = Inr (JDict [(''id'', JStr ''a''), (''max_volume'', JInt 100),
                        (''current_level'', JInt 50), (''percent_full'', JFloat (Fin 50)),
                        (''time_to_full_min'', t)])"
      unfolding a2 by simp
    show "t \<noteq> JNull" by (rule t)
    show "status_one sample_rt fm (JDict ?b)
          = Inr (JDict [(''id'', JStr ''b''), (''max_volume'', JInt 0),
                        (''percent_full'', JFloat (Fin 0)), (''time_to_full_min'', JNull)])"
      using b2 unfolding fb tb by simp
    show "status_one sample_rt fm (JDict ?c)
          = Inr (JDict [(''id'', JStr ''c''), (''max_volume'', JInt 2000),
                        (''current_level'', JFloat (Fin 1)),
                        (''percent_full'', JFloat (Fin (3602879701896397 / 36028797018963968))),
                        (''time_to_full_min'', JNull)])"
      using c2 unfolding fc tc by simp
    show "status_one sample_rt fm (JDict ?d)
          = Inr (JDict [(''id'', JStr ''d''), (''max_volume'', JInt 100),
                        (''current_level'', JInt huge_int),
                        (''percent_full'', JFloat (Fin 0)), (''time_to_full_min'', JNull)])"
      using d2 unfolding fd td by simp
  qed
qed

end
